theory Spec2Isabelle
  imports Main "HOL-Library.AList"
begin

section \<open>Python values and exceptions\<close>

text \<open>
  The editor addresses into a live object graph of dictionaries and lists
  (\<^verbatim>\<open>model.root_obj\<close>).  A value is modelled as a tree: a payload together with the
  GUI metadata that the preprocessor may have attached to it.  The exceptions that the
  modelled code can raise are values of \<open>error\<close>; a computation that may raise returns
  \<open>error + 'a\<close> with \<open>Inl\<close> for the exception.
\<close>

datatype error =
    KeyError
  | IndexError
  | ValueError
  | TypeError
  | AttributeError
  | UserError string

record 'c GuiMetaData =
  gui_context :: 'c

datatype 'c pyval = PyVal (meta: "'c GuiMetaData option") (data: "'c pydata")
and 'c pydata =
    PyNone
  | PyInt int
  | PyStr string
  | PyBytes "nat list"
  | PyDict "(string \<times> 'c pyval) list"
  | PyList "'c pyval list"

text \<open>
  Modelled from the spec: \<^verbatim>\<open>get_gui_metadata\<close> and \<^verbatim>\<open>add_gui_metadata\<close> live in
  \<^verbatim>\<open>construct_editor.helper.preprocessor\<close>, which is not part of the sources at hand.
  The spec describes them as \<open>lookupContext(value) -> context | absent\<close> and
  \<open>attachContext(value, context) -> value'\<close>: an opaque association carried by the value.
\<close>

definition get_gui_metadata :: "'c pyval \<Rightarrow> 'c GuiMetaData option" where
  "get_gui_metadata v = meta v"

definition add_gui_metadata :: "'c pyval \<Rightarrow> 'c GuiMetaData \<Rightarrow> 'c pyval" where
  "add_gui_metadata v m = PyVal (Some m) (data v)"

text \<open>\<^verbatim>\<open>obj is None\<close>: the \<^verbatim>\<open>None\<close> singleton carries no metadata.\<close>

definition is_None :: "'c pyval \<Rightarrow> bool" where
  "is_None v = (v = PyVal None PyNone)"

text \<open>\<^verbatim>\<open>isinstance(obj, dict)\<close> and \<^verbatim>\<open>isinstance(obj, list)\<close>.\<close>

fun is_dict :: "'c pyval \<Rightarrow> bool" where
  "is_dict (PyVal m (PyDict d)) = True"
| "is_dict v = False"

fun is_list :: "'c pyval \<Rightarrow> bool" where
  "is_list (PyVal m (PyList xs)) = True"
| "is_list v = False"

definition is_container :: "'c pyval \<Rightarrow> bool" where
  "is_container v = (is_dict v \<or> is_list v)"

text \<open>\<^verbatim>\<open>len(obj)\<close>: defined on strings, bytes, dictionaries and lists; a \<^verbatim>\<open>TypeError\<close> otherwise.\<close>

fun py_len :: "'c pyval \<Rightarrow> error + nat" where
  "py_len (PyVal m (PyStr s)) = Inr (length s)"
| "py_len (PyVal m (PyBytes bs)) = Inr (length bs)"
| "py_len (PyVal m (PyDict d)) = Inr (length d)"
| "py_len (PyVal m (PyList xs)) = Inr (length xs)"
| "py_len (PyVal m PyNone) = Inl TypeError"
| "py_len (PyVal m (PyInt i)) = Inl TypeError"

subsection \<open>\<^verbatim>\<open>int(str)\<close> and \<^verbatim>\<open>str(int)\<close>\<close>

text \<open>
  \<^verbatim>\<open>int(p)\<close> on a string: surrounding whitespace is stripped, one sign is allowed, and
  the rest is a run of decimal digits in which single underscores may separate digits.
  Anything else is a \<^verbatim>\<open>ValueError\<close>, and so is a run of more digits than the
  interpreter converts (\<^verbatim>\<open>sys.get_int_max_str_digits()\<close>, 4300 unless configured).  A
  character is a code point below 256; of these \<^verbatim>\<open>int\<close> strips the blank, the control
  characters 9 to 13, and the code points U+0085 and U+00A0.  The only decimal digits below
  256 are \<open>0\<close> to \<open>9\<close>.
\<close>

definition is_space :: "char \<Rightarrow> bool" where
  "is_space c =
     (c \<in> set [CHR '' '', CHR 0x09, CHR 0x0A, CHR 0x0B, CHR 0x0C, CHR 0x0D, CHR 0x85, CHR 0xA0])"

definition is_digit :: "char \<Rightarrow> bool" where
  "is_digit c = (c \<in> set ''0123456789'')"

definition strip :: "string \<Rightarrow> string" where
  "strip s = rev (dropWhile is_space (rev (dropWhile is_space s)))"

fun digits_ok :: "string \<Rightarrow> bool" where
  "digits_ok [] = False"
| "digits_ok [c] = is_digit c"
| "digits_ok (c # d # cs) =
     (is_digit c \<and> (if d = CHR ''_'' then digits_ok cs else digits_ok (d # cs)))"

definition digit_value :: "char \<Rightarrow> nat" where
  "digit_value c = of_char c - 48"

definition digits_value :: "string \<Rightarrow> nat" where
  "digits_value s = foldl (\<lambda>a c. 10 * a + digit_value c) 0 (filter is_digit s)"

definition int_max_str_digits :: nat where
  "int_max_str_digits = 4300"

definition py_int :: "string \<Rightarrow> error + int" where
  "py_int s =
     (let t = strip s;
          neg = (t \<noteq> [] \<and> hd t = CHR ''-'');
          body = (if t \<noteq> [] \<and> (hd t = CHR ''-'' \<or> hd t = CHR ''+'') then tl t else t)
      in if digits_ok body \<and> length (filter is_digit body) \<le> int_max_str_digits
         then Inr (if neg then - int (digits_value body) else int (digits_value body))
         else Inl ValueError)"

definition digit_char :: "nat \<Rightarrow> char" where
  "digit_char d = ''0123456789'' ! d"

fun str_nat :: "nat \<Rightarrow> string" where
  "str_nat n = (if n < 10 then [digit_char n] else str_nat (n div 10) @ [digit_char (n mod 10)])"

declare str_nat.simps [simp del]

definition str_int :: "int \<Rightarrow> string" where
  "str_int i = (if i < 0 then CHR ''-'' # str_nat (nat (- i)) else str_nat (nat i))"

subsection \<open>Indexing\<close>

text \<open>
  \<^verbatim>\<open>xs[i]\<close> on a list of length \<open>n\<close>: a negative index counts from the end, and an index
  outside the list raises \<^verbatim>\<open>IndexError\<close>.  The result is the position accessed.
\<close>

definition list_index :: "nat \<Rightarrow> int \<Rightarrow> error + nat" where
  "list_index n i =
     (let j = (if i < 0 then i + int n else i)
      in if 0 \<le> j \<and> j < int n then Inr (nat j) else Inl IndexError)"

text \<open>\<^verbatim>\<open>obj[p]\<close> on a dictionary and \<^verbatim>\<open>obj[int(p)]\<close> on a list.\<close>

definition dict_getitem :: "(string \<times> 'c pyval) list \<Rightarrow> string \<Rightarrow> error + 'c pyval" where
  "dict_getitem d p = (case map_of d p of None \<Rightarrow> Inl KeyError | Some v \<Rightarrow> Inr v)"

definition list_getitem :: "'c pyval list \<Rightarrow> string \<Rightarrow> error + 'c pyval" where
  "list_getitem xs p =
     (case py_int p of
        Inl e \<Rightarrow> Inl e
      | Inr i \<Rightarrow> (case list_index (length xs) i of Inl e \<Rightarrow> Inl e | Inr k \<Rightarrow> Inr (xs ! k)))"

text \<open>\<^verbatim>\<open>obj[int(p)] = val\<close> on a list.\<close>

definition list_setitem :: "'c pyval list \<Rightarrow> string \<Rightarrow> 'c pyval \<Rightarrow> error + 'c pyval list" where
  "list_setitem xs p val =
     (case py_int p of
        Inl e \<Rightarrow> Inl e
      | Inr i \<Rightarrow> (case list_index (length xs) i of Inl e \<Rightarrow> Inl e | Inr k \<Rightarrow> Inr (xs[k := val])))"

section \<open>Path addressing: the \<^verbatim>\<open>obj\<close> property\<close>

text \<open>
  The getter of \<^verbatim>\<open>EntryConstruct.obj\<close> walks the path from the root object:
  \<^verbatim>\<open>
    for p in path:
        if isinstance(obj, dict):   obj = obj[p]
        elif isinstance(obj, list): obj = obj[int(p)]
    return obj
  \<close>
  There is no \<^verbatim>\<open>else\<close> branch: a segment met at a value that is neither a dictionary nor
  a list leaves \<^verbatim>\<open>obj\<close> as it is.
\<close>

fun obj_getter :: "'c pyval \<Rightarrow> string list \<Rightarrow> error + 'c pyval" where
  "obj_getter obj [] = Inr obj"
| "obj_getter (PyVal m (PyDict d)) (p # ps) =
     (case dict_getitem d p of Inl e \<Rightarrow> Inl e | Inr v \<Rightarrow> obj_getter v ps)"
| "obj_getter (PyVal m (PyList xs)) (p # ps) =
     (case list_getitem xs p of Inl e \<Rightarrow> Inl e | Inr v \<Rightarrow> obj_getter v ps)"
| "obj_getter obj (p # ps) = obj_getter obj ps"

text \<open>
  The setter walks \<^verbatim>\<open>path[:-1]\<close> in the same way and then assigns at \<^verbatim>\<open>path[-1]\<close>:
  \<^verbatim>\<open>
    if isinstance(obj, dict):   obj[path[-1]] = val
    elif isinstance(obj, list): obj[int(path[-1])] = val
  \<close>
  The assignment mutates the container in place; on the tree of values this is the root
  object rebuilt with the one slot replaced.  On an empty path \<^verbatim>\<open>path[-1]\<close> raises
  \<^verbatim>\<open>IndexError\<close>, but only when a container is reached; otherwise nothing is evaluated.
\<close>

fun obj_setter :: "'c pyval \<Rightarrow> string list \<Rightarrow> 'c pyval \<Rightarrow> error + 'c pyval" where
  "obj_setter obj [] val = (if is_container obj then Inl IndexError else Inr obj)"
| "obj_setter (PyVal m (PyDict d)) [p] val = Inr (PyVal m (PyDict (AList.update p val d)))"
| "obj_setter (PyVal m (PyList xs)) [p] val =
     (case list_setitem xs p val of Inl e \<Rightarrow> Inl e | Inr ys \<Rightarrow> Inr (PyVal m (PyList ys)))"
| "obj_setter obj [p] val = Inr obj"
| "obj_setter (PyVal m (PyDict d)) (p # q # ps) val =
     (case dict_getitem d p of
        Inl e \<Rightarrow> Inl e
      | Inr v \<Rightarrow> (case obj_setter v (q # ps) val of
                   Inl e \<Rightarrow> Inl e
                 | Inr v' \<Rightarrow> Inr (PyVal m (PyDict (AList.update p v' d)))))"
| "obj_setter (PyVal m (PyList xs)) (p # q # ps) val =
     (case list_getitem xs p of
        Inl e \<Rightarrow> Inl e
      | Inr v \<Rightarrow> (case obj_setter v (q # ps) val of
                   Inl e \<Rightarrow> Inl e
                 | Inr v' \<Rightarrow> (case list_setitem xs p v' of
                               Inl e \<Rightarrow> Inl e
                             | Inr ys \<Rightarrow> Inr (PyVal m (PyList ys)))))"
| "obj_setter obj (p # q # ps) val = obj_setter obj (q # ps) val"

section \<open>Grammar nodes\<close>

text \<open>
  The grammar nodes come from the \<^verbatim>\<open>construct\<close> and \<^verbatim>\<open>construct_typed\<close> libraries.  The editor
  looks at three things: the runtime type of a node (for the dispatch of the entry factory),
  its \<^verbatim>\<open>name\<close>, and the attributes that hold its sub-nodes and parameters.

  \<open>cs_type\<close> lists the classes that the entry mapping registers, the library's base classes,
  and any further class by name.  A node carries its runtime type \<open>ctype\<close> and the other
  classes of its method resolution order, \<open>bases\<close>, so that \<^verbatim>\<open>isinstance\<close> can be decided.
\<close>

datatype cs_type =
    cs_Bytes | cs_FormatField | cs_BytesInteger | cs_BitsInteger
  | cs_Enum | cs_FlagsEnum
  | cs_Struct
  | cs_Array | cs_GreedyRange
  | cs_Renamed
  | cs_Const | cs_Computed | cs_Default | cs_TimestampAdapter
  | cs_IfThenElse | cs_Switch
  | cs_Pointer | cs_Peek | cs_Seek | type_cs_Tell | type_cs_Pass
  | cs_RawCopy | cs_Transformed | cs_Restreamed
  | cst_TStruct | cst_TBitStruct | cst_TEnum
  | IncludeGuiMetaData
  | cs_Construct | cs_Subconstruct | cs_Adapter
  | OtherType string

text \<open>
  A parameter of a grammar node is a constant or a callable on the parse context
  (\<^verbatim>\<open>evaluate(param, context)\<close> calls it when it is callable).  A callable is opaque: it
  may raise, and its \<^verbatim>\<open>str\<close> is carried along.
\<close>

datatype ('c, 'a) param = Constant 'a | Callable string "'c \<Rightarrow> error + 'a"

fun evaluate :: "('c, 'a) param \<Rightarrow> 'c \<Rightarrow> error + 'a" where
  "evaluate (Callable r f) context = f context"
| "evaluate (Constant a) context = Inr a"

datatype pykey = KeyInt int | KeyStr string

fun str_key :: "pykey \<Rightarrow> string" where
  "str_key (KeyInt i) = str_int i"
| "str_key (KeyStr s) = s"

datatype 'c construct =
    Construct (ctype: cs_type) (bases: "cs_type list") (construct_name: "string option")
  | Subconstruct (ctype: cs_type) (bases: "cs_type list") (construct_name: "string option")
      "'c construct"
  | Struct (ctype: cs_type) (bases: "cs_type list") (construct_name: "string option")
      "'c construct list"
  | Array (ctype: cs_type) (bases: "cs_type list") (construct_name: "string option")
      "('c, int) param" "'c construct"
  | IfThenElse (ctype: cs_type) (bases: "cs_type list") (construct_name: "string option")
      "('c, bool) param" "'c construct" "'c construct"
  | Switch (ctype: cs_type) (bases: "cs_type list") (construct_name: "string option")
      "('c, pykey) param" "(pykey \<times> 'c construct) list" "'c construct option"
  | TStruct (ctype: cs_type) (bases: "cs_type list") (construct_name: "string option")
      bool "'c construct"

text \<open>
  Attribute reads.  A node without the attribute raises \<^verbatim>\<open>AttributeError\<close>.
\<close>

fun subcon_of :: "'c construct \<Rightarrow> error + 'c construct" where
  "subcon_of (Subconstruct t b n s) = Inr s"
| "subcon_of (Array t b n k s) = Inr s"
| "subcon_of (TStruct t b n r s) = Inr s"
| "subcon_of c = Inl AttributeError"

fun subcons_of :: "'c construct \<Rightarrow> error + 'c construct list" where
  "subcons_of (Struct t b n cs) = Inr cs"
| "subcons_of c = Inl AttributeError"

fun count_of :: "'c construct \<Rightarrow> error + ('c, int) param" where
  "count_of (Array t b n k s) = Inr k"
| "count_of c = Inl AttributeError"

fun reverse_of :: "'c construct \<Rightarrow> error + bool" where
  "reverse_of (TStruct t b n r s) = Inr r"
| "reverse_of c = Inl AttributeError"

fun condfunc_of :: "'c construct \<Rightarrow> error + ('c, bool) param" where
  "condfunc_of (IfThenElse t b n f a e) = Inr f"
| "condfunc_of c = Inl AttributeError"

fun thensubcon_of :: "'c construct \<Rightarrow> error + 'c construct" where
  "thensubcon_of (IfThenElse t b n f a e) = Inr a"
| "thensubcon_of c = Inl AttributeError"

fun elsesubcon_of :: "'c construct \<Rightarrow> error + 'c construct" where
  "elsesubcon_of (IfThenElse t b n f a e) = Inr e"
| "elsesubcon_of c = Inl AttributeError"

fun keyfunc_of :: "'c construct \<Rightarrow> error + ('c, pykey) param" where
  "keyfunc_of (Switch t b n f cs d) = Inr f"
| "keyfunc_of c = Inl AttributeError"

fun cases_of :: "'c construct \<Rightarrow> error + (pykey \<times> 'c construct) list" where
  "cases_of (Switch t b n f cs d) = Inr cs"
| "cases_of c = Inl AttributeError"

fun default_of :: "'c construct \<Rightarrow> error + 'c construct option" where
  "default_of (Switch t b n f cs d) = Inr d"
| "default_of c = Inl AttributeError"

text \<open>\<^verbatim>\<open>str\<close> of a parameter, as the f-strings of the branch labels format it.\<close>

fun str_condfunc :: "('c, bool) param \<Rightarrow> string" where
  "str_condfunc (Constant b) = (if b then ''True'' else ''False'')"
| "str_condfunc (Callable r f) = r"

fun str_keyfunc :: "('c, pykey) param \<Rightarrow> string" where
  "str_keyfunc (Constant k) = str_key k"
| "str_keyfunc (Callable r f) = r"

text \<open>\<^verbatim>\<open>isinstance(subcon, key)\<close>.\<close>

definition isinstance :: "'c construct \<Rightarrow> cs_type \<Rightarrow> bool" where
  "isinstance c k = (k = ctype c \<or> k \<in> set (bases c))"

text \<open>
  \<^verbatim>\<open>cs.Renamed(subcon, newname=...)\<close> of the grammar library: the new node has the new name
  when one is given (a non-empty string), and the name of the wrapped node otherwise.
\<close>

definition cs_Renamed_new :: "'c construct \<Rightarrow> string \<Rightarrow> 'c construct" where
  "cs_Renamed_new subcon newname =
     Subconstruct cs_Renamed [cs_Subconstruct, cs_Construct]
       (if newname \<noteq> [] then Some newname else construct_name subcon) subcon"

text \<open>A measure on grammar nodes under which every sub-node, also once renamed, is smaller.\<close>

fun weight :: "'c construct \<Rightarrow> nat" where
  "weight (Construct t b n) = 1"
| "weight (Subconstruct t b n s) = 1 + weight s"
| "weight (Struct t b n cs) = 2 + sum_list (map weight cs)"
| "weight (Array t b n k s) = 2 + weight s"
| "weight (IfThenElse t b n f a e) = 2 + weight a + weight e"
| "weight (Switch t b n f cs d) =
     2 + sum_list (map (\<lambda>kc. weight (snd kc)) cs) + (case d of None \<Rightarrow> 0 | Some c \<Rightarrow> weight c)"
| "weight (TStruct t b n r s) = 2 + weight s"

section \<open>Entries\<close>

text \<open>
  An entry object holds its parent (absent for the root), its grammar node and, for
  \<^verbatim>\<open>EntryRenamed\<close>, the flag \<^verbatim>\<open>_exclude_from_path\<close>.  The entry is represented by exactly
  these constructor arguments together with its class.  The sub-entries that the
  constructors build are determined by them and are recomputed where a property reads them.
\<close>

datatype entry_class =
    EntryConstruct | EntrySubconstruct | EntryStruct | EntryArray | EntryGreedyRange
  | EntryIfThenElse | EntrySwitch
  | EntryFormatField | EntryBytesInteger | EntryBitsInteger | EntryBytes
  | EntryRenamed
  | EntryTell | EntrySeek | EntryPass | EntryComputed
  | EntryTimestamp | EntryTransparentSubcon | EntryPeek | EntryRawCopy
  | EntryTStruct | EntryTBitStruct
  | EntryEnum | EntryFlagsEnum | EntryTEnum

datatype 'c entry =
  Entry (eclass: entry_class) (parent: "'c entry option") (construct: "'c construct")
    (exclude_from_path: bool)

text \<open>\<^verbatim>\<open>EntryConstruct.name\<close>: the node's name, or the empty string.\<close>

definition name :: "'c entry \<Rightarrow> string" where
  "name e = (case construct_name (construct e) of Some n \<Rightarrow> n | None \<Rightarrow> [])"

text \<open>
  \<^verbatim>\<open>EntryConstruct.path\<close> and its override \<^verbatim>\<open>EntryRenamed.path\<close>.  An entry without a
  parent has the empty path.
\<close>

fun path :: "'c entry \<Rightarrow> string list" where
  "path (Entry cls par c excl) =
     (if cls = EntryRenamed \<and> excl
      then (case par of Some p \<Rightarrow> path p | None \<Rightarrow> [])
      else (case par of
              Some p \<Rightarrow>
                (if name (Entry cls par c excl) \<noteq> []
                 then path p @ [name (Entry cls par c excl)]
                 else path p)
            | None \<Rightarrow> []))"

text \<open>An entry is marked exclude-from-path when it is a rename wrapper with the flag set.\<close>

definition excluded :: "'c entry \<Rightarrow> bool" where
  "excluded e = (eclass e = EntryRenamed \<and> exclude_from_path e)"

text \<open>The \<^verbatim>\<open>obj\<close> property of an entry: getter and setter over the model's root object.\<close>

definition obj :: "'c pyval \<Rightarrow> 'c entry \<Rightarrow> error + 'c pyval" where
  "obj root_obj e = obj_getter root_obj (path e)"

definition obj_set :: "'c pyval \<Rightarrow> 'c entry \<Rightarrow> 'c pyval \<Rightarrow> error + 'c pyval" where
  "obj_set root_obj e val = obj_setter root_obj (path e) val"

section \<open>The entry factory\<close>

text \<open>
  The constructors.  \<^verbatim>\<open>EntrySubconstruct.__init__\<close> reads \<^verbatim>\<open>construct.subcon\<close>,
  \<^verbatim>\<open>EntryStruct.__init__\<close> reads \<^verbatim>\<open>construct.subcons\<close>, the conditional entries read the
  attributes of their branches; a node without the attribute makes the constructor raise.
  \<^verbatim>\<open>EntryRenamed.__init__\<close> sets the exclusion flag also when the node has the name of the
  node it wraps.
\<close>

definition is_subconstruct_class :: "entry_class \<Rightarrow> bool" where
  "is_subconstruct_class cls =
     (cls \<in> set [EntrySubconstruct, EntryArray, EntryGreedyRange, EntryRenamed, EntryTimestamp,
                 EntryTransparentSubcon, EntryPeek, EntryRawCopy, EntryTStruct, EntryTBitStruct,
                 EntryEnum, EntryFlagsEnum, EntryTEnum])"

definition EntryRenamed_init ::
  "'c entry option \<Rightarrow> 'c construct \<Rightarrow> bool \<Rightarrow> error + 'c entry" where
  "EntryRenamed_init par c excl =
     (case subcon_of c of
        Inl err \<Rightarrow> Inl err
      | Inr s \<Rightarrow>
          Inr (Entry EntryRenamed par c
                 (if construct_name c = construct_name s then True else excl)))"

definition entry_init ::
  "entry_class \<Rightarrow> 'c entry option \<Rightarrow> 'c construct \<Rightarrow> error + 'c entry" where
  "entry_init cls par c =
     (if cls = EntryRenamed then EntryRenamed_init par c False
      else if is_subconstruct_class cls then
        (case subcon_of c of Inl err \<Rightarrow> Inl err | Inr s \<Rightarrow> Inr (Entry cls par c False))
      else if cls = EntryStruct then
        (case subcons_of c of Inl err \<Rightarrow> Inl err | Inr cs \<Rightarrow> Inr (Entry cls par c False))
      else if cls = EntryIfThenElse then
        (case condfunc_of c of Inl err \<Rightarrow> Inl err | Inr f \<Rightarrow> Inr (Entry cls par c False))
      else if cls = EntrySwitch then
        (case cases_of c of Inl err \<Rightarrow> Inl err | Inr cs \<Rightarrow> Inr (Entry cls par c False))
      else Inr (Entry cls par c False))"

text \<open>
  \<^verbatim>\<open>entry_mapping_construct\<close>: the registry, a dictionary in insertion order.
\<close>

definition entry_mapping_construct :: "(cs_type \<times> entry_class) list" where
  "entry_mapping_construct =
     [(cs_Bytes, EntryBytes),
      (cs_FormatField, EntryFormatField),
      (cs_BytesInteger, EntryBytesInteger),
      (cs_BitsInteger, EntryBitsInteger),
      (cs_Enum, EntryEnum),
      (cs_FlagsEnum, EntryFlagsEnum),
      (cs_Struct, EntryStruct),
      (cs_Array, EntryArray),
      (cs_GreedyRange, EntryGreedyRange),
      (cs_Renamed, EntryRenamed),
      (cs_Const, EntryTransparentSubcon),
      (cs_Computed, EntryComputed),
      (cs_Default, EntryTransparentSubcon),
      (cs_TimestampAdapter, EntryTimestamp),
      (cs_IfThenElse, EntryIfThenElse),
      (cs_Switch, EntrySwitch),
      (cs_Pointer, EntryTransparentSubcon),
      (cs_Peek, EntryPeek),
      (cs_Seek, EntrySeek),
      (type_cs_Tell, EntryTell),
      (type_cs_Pass, EntryPass),
      (cs_RawCopy, EntryRawCopy),
      (cs_Transformed, EntryTransparentSubcon),
      (cs_Restreamed, EntryTransparentSubcon),
      (cst_TStruct, EntryTStruct),
      (cst_TBitStruct, EntryTBitStruct),
      (cst_TEnum, EntryTEnum),
      (IncludeGuiMetaData, EntryTransparentSubcon)]"

text \<open>
  \<^verbatim>\<open>create_entry_from_construct\<close>, over an arbitrary registry first:
  \<^verbatim>\<open>
    if type(subcon) in entry_mapping_construct:
        return entry_mapping_construct[type(subcon)](model, parent, subcon)
    else:
        for key, value in entry_mapping_construct.items():
            if isinstance(subcon, key):
                return entry_mapping_construct[key](model, parent, subcon)
    if isinstance(subcon, cs.Construct):
        return EntryConstruct(model, parent, subcon)
    raise ValueError(...)
  \<close>
  The function returns an entry or raises; the result is handed on where an optional entry
  is expected (\<^verbatim>\<open>_get_subentry\<close>), hence \<open>Some\<close>.
\<close>

definition create_entry_with ::
  "(cs_type \<times> entry_class) list \<Rightarrow> 'c entry option \<Rightarrow> 'c construct \<Rightarrow> error + 'c entry option" where
  "create_entry_with mapping par subcon =
     (case map_of mapping (ctype subcon) of
        Some cls \<Rightarrow> map_sum id Some (entry_init cls par subcon)
      | None \<Rightarrow>
          (case find (\<lambda>kv. isinstance subcon (fst kv)) mapping of
             Some kv \<Rightarrow>
               (case map_of mapping (fst kv) of
                  Some cls \<Rightarrow> map_sum id Some (entry_init cls par subcon)
                | None \<Rightarrow> Inl KeyError)
           | None \<Rightarrow>
               (if isinstance subcon cs_Construct
                then map_sum id Some (entry_init EntryConstruct par subcon)
                else Inl ValueError)))"

definition create_entry_from_construct ::
  "'c entry option \<Rightarrow> 'c construct \<Rightarrow> error + 'c entry option" where
  "create_entry_from_construct par subcon =
     create_entry_with entry_mapping_construct par subcon"

text \<open>Reading an attribute of an entry reference that is \<^verbatim>\<open>None\<close> raises.\<close>

definition deref :: "'a option \<Rightarrow> error + 'a" where
  "deref x = (case x of None \<Rightarrow> Inl AttributeError | Some e \<Rightarrow> Inr e)"

text \<open>\<^verbatim>\<open>self.subentry\<close> of \<^verbatim>\<open>EntrySubconstruct\<close>: the entry built for \<^verbatim>\<open>construct.subcon\<close>.\<close>

definition subentry :: "'c entry \<Rightarrow> error + 'c entry option" where
  "subentry e =
     (case subcon_of (construct e) of
        Inl err \<Rightarrow> Inl err
      | Inr s \<Rightarrow> create_entry_from_construct (Some e) s)"

section \<open>Conditional entries\<close>

text \<open>
  \<^verbatim>\<open>EntryIfThenElse.__init__\<close> builds two rename wrappers, both excluded from the path:
  \<^verbatim>\<open>
    self._subentry_then = EntryRenamed(model, self,
        cs.Renamed(construct.thensubcon, newname=f"If {construct.condfunc} then"),
        exclude_from_path=True)
    self._subentry_else = EntryRenamed(model, self,
        cs.Renamed(construct.elsesubcon, newname=f"Else"), exclude_from_path=True)
    self._subentries = [self._subentry_then, self._subentry_else]
  \<close>
\<close>

definition subentry_then :: "'c entry \<Rightarrow> error + 'c entry" where
  "subentry_then e =
     (case thensubcon_of (construct e) of
        Inl err \<Rightarrow> Inl err
      | Inr a \<Rightarrow>
          (case condfunc_of (construct e) of
             Inl err \<Rightarrow> Inl err
           | Inr f \<Rightarrow>
               EntryRenamed_init (Some e)
                 (cs_Renamed_new a (''If '' @ str_condfunc f @ '' then'')) True))"

definition subentry_else :: "'c entry \<Rightarrow> error + 'c entry" where
  "subentry_else e =
     (case elsesubcon_of (construct e) of
        Inl err \<Rightarrow> Inl err
      | Inr a \<Rightarrow> EntryRenamed_init (Some e) (cs_Renamed_new a ''Else'') True)"

definition EntryIfThenElse_subentries_attr :: "'c entry \<Rightarrow> error + 'c entry option list" where
  "EntryIfThenElse_subentries_attr e =
     (case subentry_then e of
        Inl err \<Rightarrow> Inl err
      | Inr t \<Rightarrow> (case subentry_else e of Inl err \<Rightarrow> Inl err | Inr el \<Rightarrow> Inr [Some t, Some el]))"

text \<open>
  \<^verbatim>\<open>EntryIfThenElse._get_subentry\<close>:
  \<^verbatim>\<open>
    obj = self.obj
    if obj is None:
        return None
    else:
        metadata = get_gui_metadata(obj)
        cond = evaluate(self.construct.condfunc, metadata.context)
        if cond: return self._subentry_then.subentry
        else:    return self._subentry_else.subentry
  \<close>
  Nothing in it is guarded by \<^verbatim>\<open>try\<close>: an exception of the getter, of a callable, or of
  \<^verbatim>\<open>metadata.context\<close> when there is no metadata (\<^verbatim>\<open>AttributeError\<close>) leaves the method.
\<close>

definition EntryIfThenElse_get_subentry :: "'c pyval \<Rightarrow> 'c entry \<Rightarrow> error + 'c entry option" where
  "EntryIfThenElse_get_subentry root e =
     (case obj root e of
        Inl err \<Rightarrow> Inl err
      | Inr v \<Rightarrow>
          if is_None v then Inr None
          else (case condfunc_of (construct e) of
                  Inl err \<Rightarrow> Inl err
                | Inr f \<Rightarrow>
                    (case get_gui_metadata v of
                       None \<Rightarrow> Inl AttributeError
                     | Some metadata \<Rightarrow>
                         (case evaluate f (gui_context metadata) of
                            Inl err \<Rightarrow> Inl err
                          | Inr cond \<Rightarrow>
                              if cond
                              then (case subentry_then e of Inl err \<Rightarrow> Inl err | Inr t \<Rightarrow> subentry t)
                              else (case subentry_else e of Inl err \<Rightarrow> Inl err | Inr el \<Rightarrow> subentry el)))))"

text \<open>
  \<^verbatim>\<open>EntrySwitch.__init__\<close> builds one excluded rename wrapper per case, in the order of
  \<^verbatim>\<open>construct.cases.items()\<close>, and one for the default branch when there is one.
\<close>

fun switch_case_entries ::
  "'c entry \<Rightarrow> ('c, pykey) param \<Rightarrow> (pykey \<times> 'c construct) list \<Rightarrow> error + (pykey \<times> 'c entry) list" where
  "switch_case_entries e f [] = Inr []"
| "switch_case_entries e f ((key, val) # rest) =
     (case EntryRenamed_init (Some e)
             (cs_Renamed_new val (''Case '' @ str_keyfunc f @ '' == '' @ str_key key)) True of
        Inl err \<Rightarrow> Inl err
      | Inr subentry_case \<Rightarrow>
          (case switch_case_entries e f rest of
             Inl err \<Rightarrow> Inl err
           | Inr others \<Rightarrow> Inr ((key, subentry_case) # others)))"

definition subentry_cases :: "'c entry \<Rightarrow> error + (pykey \<times> 'c entry) list" where
  "subentry_cases e =
     (case cases_of (construct e) of
        Inl err \<Rightarrow> Inl err
      | Inr cs \<Rightarrow>
          (case keyfunc_of (construct e) of
             Inl err \<Rightarrow> Inl err
           | Inr f \<Rightarrow> switch_case_entries e f cs))"

definition subentry_default :: "'c entry \<Rightarrow> error + 'c entry option" where
  "subentry_default e =
     (case default_of (construct e) of
        Inl err \<Rightarrow> Inl err
      | Inr None \<Rightarrow> Inr None
      | Inr (Some d) \<Rightarrow>
          map_sum id Some (EntryRenamed_init (Some e) (cs_Renamed_new d ''Default'') True))"

definition EntrySwitch_subentries_attr :: "'c entry \<Rightarrow> error + 'c entry option list" where
  "EntrySwitch_subentries_attr e =
     (case subentry_cases e of
        Inl err \<Rightarrow> Inl err
      | Inr cs \<Rightarrow>
          (case subentry_default e of
             Inl err \<Rightarrow> Inl err
           | Inr None \<Rightarrow> Inr (map (\<lambda>kc. Some (snd kc)) cs)
           | Inr (Some d) \<Rightarrow> Inr (map (\<lambda>kc. Some (snd kc)) cs @ [Some d])))"

text \<open>
  \<^verbatim>\<open>EntrySwitch._get_subentry\<close>: as for the conditional, with
  \<^verbatim>\<open>
    key = evaluate(self.construct.keyfunc, metadata.context)
    if key in self._subentry_cases: return self._subentry_cases[key]
    else:                           return self._subentry_default
  \<close>
\<close>

definition EntrySwitch_get_subentry :: "'c pyval \<Rightarrow> 'c entry \<Rightarrow> error + 'c entry option" where
  "EntrySwitch_get_subentry root e =
     (case obj root e of
        Inl err \<Rightarrow> Inl err
      | Inr v \<Rightarrow>
          if is_None v then Inr None
          else (case keyfunc_of (construct e) of
                  Inl err \<Rightarrow> Inl err
                | Inr f \<Rightarrow>
                    (case get_gui_metadata v of
                       None \<Rightarrow> Inl AttributeError
                     | Some metadata \<Rightarrow>
                         (case evaluate f (gui_context metadata) of
                            Inl err \<Rightarrow> Inl err
                          | Inr key \<Rightarrow>
                              (case subentry_cases e of
                                 Inl err \<Rightarrow> Inl err
                               | Inr cs \<Rightarrow>
                                   (case map_of cs key of
                                      Some s \<Rightarrow> Inr (Some s)
                                    | None \<Rightarrow> subentry_default e))))))"

section \<open>Arrays\<close>

text \<open>
  \<^verbatim>\<open>EntryArray.subentries\<close>:
  \<^verbatim>\<open>
    try:
        array_len = len(self.obj)
    except Exception:
        if isinstance(self.construct.count, int): array_len = self.construct.count
        else:                                     array_len = 1
    if len(self._subentries) != array_len:
        self._subentries.clear()
        for index in range(0, array_len):
            self.insert_entry(index)
    return self._subentries
  \<close>
  The cached list \<^verbatim>\<open>self._subentries\<close> is the state of the entry; the property takes it
  and returns the list it leaves there.  \<^verbatim>\<open>EntryGreedyRange.subentries\<close> is the same
  with the fallback length 1.  \<^verbatim>\<open>insert_entry\<close> appends the entry that the factory builds
  for \<^verbatim>\<open>cs.Renamed(self.construct.subcon, newname=str(index))\<close>.
\<close>

definition EntryArray_array_len :: "'c pyval \<Rightarrow> 'c entry \<Rightarrow> error + int" where
  "EntryArray_array_len root e =
     (case (case obj root e of Inl err \<Rightarrow> Inl err | Inr v \<Rightarrow> py_len v) of
        Inr n \<Rightarrow> Inr (int n)
      | Inl exc \<Rightarrow>
          (case count_of (construct e) of
             Inl err \<Rightarrow> Inl err
           | Inr (Constant k) \<Rightarrow> Inr k
           | Inr (Callable r f) \<Rightarrow> Inr 1))"

definition EntryGreedyRange_array_len :: "'c pyval \<Rightarrow> 'c entry \<Rightarrow> int" where
  "EntryGreedyRange_array_len root e =
     (case (case obj root e of Inl err \<Rightarrow> Inl err | Inr v \<Rightarrow> py_len v) of
        Inr n \<Rightarrow> int n
      | Inl exc \<Rightarrow> 1)"

definition insert_entry :: "'c entry \<Rightarrow> 'c entry option list \<Rightarrow> nat \<Rightarrow> error + 'c entry option list" where
  "insert_entry e cache index =
     (case subcon_of (construct e) of
        Inl err \<Rightarrow> Inl err
      | Inr s \<Rightarrow>
          (case create_entry_from_construct (Some e) (cs_Renamed_new s (str_nat index)) of
             Inl err \<Rightarrow> Inl err
           | Inr sub \<Rightarrow> Inr (cache @ [sub])))"

fun insert_entries :: "'c entry \<Rightarrow> nat list \<Rightarrow> 'c entry option list \<Rightarrow> error + 'c entry option list" where
  "insert_entries e [] cache = Inr cache"
| "insert_entries e (index # rest) cache =
     (case insert_entry e cache index of
        Inl err \<Rightarrow> Inl err
      | Inr cache' \<Rightarrow> insert_entries e rest cache')"

definition sync_subentries :: "'c entry \<Rightarrow> int \<Rightarrow> 'c entry option list \<Rightarrow> error + 'c entry option list" where
  "sync_subentries e array_len cache =
     (if int (length cache) \<noteq> array_len
      then insert_entries e [0..<nat array_len] []
      else Inr cache)"

definition EntryArray_subentries ::
  "'c pyval \<Rightarrow> 'c entry \<Rightarrow> 'c entry option list \<Rightarrow> error + 'c entry option list" where
  "EntryArray_subentries root e cache =
     (case EntryArray_array_len root e of
        Inl err \<Rightarrow> Inl err
      | Inr n \<Rightarrow> sync_subentries e n cache)"

definition EntryGreedyRange_subentries ::
  "'c pyval \<Rightarrow> 'c entry \<Rightarrow> 'c entry option list \<Rightarrow> error + 'c entry option list" where
  "EntryGreedyRange_subentries root e cache = sync_subentries e (EntryGreedyRange_array_len root e) cache"

section \<open>Structs\<close>

text \<open>
  \<^verbatim>\<open>EntryStruct\<close> holds one entry per element of \<^verbatim>\<open>construct.subcons\<close>, each built by
  the factory with the struct entry as parent.  The lists of sub-entries hold the results
  of the factory as it gives them.
\<close>

fun create_entries :: "'c entry \<Rightarrow> 'c construct list \<Rightarrow> error + 'c entry option list" where
  "create_entries e [] = Inr []"
| "create_entries e (subcon # rest) =
     (case create_entry_from_construct (Some e) subcon of
        Inl err \<Rightarrow> Inl err
      | Inr sub \<Rightarrow>
          (case create_entries e rest of Inl err \<Rightarrow> Inl err | Inr others \<Rightarrow> Inr (sub # others)))"

definition EntryStruct_subentries :: "'c entry \<Rightarrow> error + 'c entry option list" where
  "EntryStruct_subentries e =
     (case subcons_of (construct e) of Inl err \<Rightarrow> Inl err | Inr cs \<Rightarrow> create_entries e cs)"

section \<open>Sub-entries\<close>

text \<open>
  The measure under which the sub-entries of an entry are smaller than the entry: the
  weight of the grammar node, and below an array entry its index wrappers.
\<close>

definition entry_measure :: "'c entry \<Rightarrow> nat" where
  "entry_measure e =
     2 * weight (construct e) + (if eclass e = EntryArray \<or> eclass e = EntryGreedyRange then 1 else 0)"

subsection \<open>What the constructors build\<close>

lemma mapping_Renamed: "map_of entry_mapping_construct cs_Renamed = Some EntryRenamed"
  by (simp add: entry_mapping_construct_def)

lemma EntryRenamed_init_Inr:
  "EntryRenamed_init par c x = Inr s \<Longrightarrow> construct s = c \<and> eclass s = EntryRenamed \<and> parent s = par"
  by (auto simp: EntryRenamed_init_def split: sum.splits)

lemma entry_init_Inr: "entry_init cls par c = Inr s \<Longrightarrow> construct s = c \<and> parent s = par"
  by (auto simp: entry_init_def EntryRenamed_init_def split: if_splits sum.splits)

lemma create_entry_with_Some:
  "create_entry_with mapping par c = Inr (Some s) \<Longrightarrow> construct s = c \<and> parent s = par"
proof -
  assume a: "create_entry_with mapping par c = Inr (Some s)"
  have "\<exists>cls. entry_init cls par c = Inr s"
  proof (cases "map_of mapping (ctype c)")
    case (Some cls)
    with a show ?thesis
      by (cases "entry_init cls par c") (auto simp: create_entry_with_def)
  next
    case None
    show ?thesis
    proof (cases "find (\<lambda>kv. isinstance c (fst kv)) mapping")
      case (Some kv)
      show ?thesis
      proof (cases "map_of mapping (fst kv)")
        case None': None
        with a None Some show ?thesis by (simp add: create_entry_with_def)
      next
        case (Some cls)
        with a None \<open>find (\<lambda>kv. isinstance c (fst kv)) mapping = Some kv\<close> show ?thesis
          by (cases "entry_init cls par c") (auto simp: create_entry_with_def)
      qed
    next
      case None': None
      with a None show ?thesis
        by (cases "entry_init EntryConstruct par c")
           (auto simp: create_entry_with_def split: if_splits)
    qed
  qed
  then show ?thesis by (auto dest: entry_init_Inr)
qed

lemma create_entry_from_construct_Some:
  "create_entry_from_construct par c = Inr (Some s) \<Longrightarrow> construct s = c \<and> parent s = par"
  unfolding create_entry_from_construct_def by (rule create_entry_with_Some)

lemma create_entry_Renamed:
  "create_entry_from_construct par (cs_Renamed_new c nm) =
     map_sum id Some (EntryRenamed_init par (cs_Renamed_new c nm) False)"
proof -
  have "ctype (cs_Renamed_new c nm) = cs_Renamed" by (simp add: cs_Renamed_new_def)
  then show ?thesis
    by (simp add: create_entry_from_construct_def create_entry_with_def mapping_Renamed
          entry_init_def)
qed

lemma weight_Renamed: "weight (cs_Renamed_new v nm) = 1 + weight v"
  by (simp add: cs_Renamed_new_def)

lemma weight_subcon: "subcon_of c = Inr c' \<Longrightarrow> weight c' < weight c"
  by (cases c) auto

lemma weight_subentry:
  "subentry e = Inr (Some s) \<Longrightarrow> weight (construct s) < weight (construct e)"
  by (auto simp: subentry_def split: sum.splits
           dest!: create_entry_from_construct_Some weight_subcon)

lemma weight_ite_branch:
  "EntryIfThenElse_get_subentry root e = Inr (Some s) \<Longrightarrow>
     weight (construct s) < weight (construct e)"
proof -
  assume g: "EntryIfThenElse_get_subentry root e = Inr (Some s)"
  then obtain t a nm where t: "EntryRenamed_init (Some e) (cs_Renamed_new a nm) True = Inr t"
    and a: "thensubcon_of (construct e) = Inr a \<or> elsesubcon_of (construct e) = Inr a"
    and s: "subentry t = Inr (Some s)"
    by (auto simp: EntryIfThenElse_get_subentry_def subentry_then_def subentry_else_def
             split: sum.splits if_splits option.splits)
  from EntryRenamed_init_Inr[OF t] weight_subentry[OF s]
  have "weight (construct s) < 1 + weight a" by (simp add: weight_Renamed)
  moreover from a have "weight a + 2 \<le> weight (construct e)"
    by (cases "construct e") auto
  ultimately show ?thesis by simp
qed

lemma switch_case_entries_construct:
  "switch_case_entries e f cs = Inr ces \<Longrightarrow> s \<in> snd ` set ces \<Longrightarrow>
     \<exists>v nm. v \<in> snd ` set cs \<and> construct s = cs_Renamed_new v nm \<and>
            eclass s = EntryRenamed \<and> parent s = Some e"
proof (induction cs arbitrary: ces)
  case Nil
  then show ?case by simp
next
  case (Cons kv cs)
  obtain k v where kv: "kv = (k, v)" by (cases kv)
  from Cons.prems kv obtain t rest where t: "EntryRenamed_init (Some e)
      (cs_Renamed_new v (''Case '' @ str_keyfunc f @ '' == '' @ str_key k)) True = Inr t"
    and rest: "switch_case_entries e f cs = Inr rest" and ces: "ces = (k, t) # rest"
    by (auto split: sum.splits)
  from Cons.prems(2) ces consider "s = t" | "s \<in> snd ` set rest" by auto
  then show ?case
  proof cases
    case 1
    with EntryRenamed_init_Inr[OF t] kv show ?thesis by auto
  next
    case 2
    from Cons.IH[OF rest this] show ?thesis by auto
  qed
qed

lemma weight_switch_case:
  "subentry_cases e = Inr ces \<Longrightarrow> s \<in> snd ` set ces \<Longrightarrow>
     weight (construct s) < weight (construct e)"
proof -
  assume c: "subentry_cases e = Inr ces" and m: "s \<in> snd ` set ces"
  from c obtain f cs where cs: "cases_of (construct e) = Inr cs"
    and r: "switch_case_entries e f cs = Inr ces"
    by (auto simp: subentry_cases_def split: sum.splits)
  from switch_case_entries_construct[OF r m] obtain v nm where v: "v \<in> snd ` set cs"
    and s: "construct s = cs_Renamed_new v nm" by blast
  from v have "weight v \<in> set (map (\<lambda>kc. weight (snd kc)) cs)" by auto
  then have "weight v \<le> sum_list (map (\<lambda>kc. weight (snd kc)) cs)"
    by (simp add: member_le_sum_list)
  with s cs show ?thesis by (cases "construct e") (auto simp: weight_Renamed)
qed

lemma weight_switch_default:
  "subentry_default e = Inr (Some s) \<Longrightarrow> weight (construct s) < weight (construct e)"
proof -
  assume d: "subentry_default e = Inr (Some s)"
  then obtain dc where "default_of (construct e) = Inr (Some dc)"
    "construct s = cs_Renamed_new dc ''Default''"
    by (auto simp: subentry_default_def map_sum_def split: sum.splits option.splits
             dest: EntryRenamed_init_Inr)
  then show ?thesis by (cases "construct e") (auto simp: weight_Renamed)
qed

lemma weight_switch_branch:
  "EntrySwitch_get_subentry root e = Inr (Some s) \<Longrightarrow>
     weight (construct s) < weight (construct e)"
proof -
  assume g: "EntrySwitch_get_subentry root e = Inr (Some s)"
  then consider
      ces key where "subentry_cases e = Inr ces" "map_of ces key = Some s"
    | "subentry_default e = Inr (Some s)"
    by (auto simp: EntrySwitch_get_subentry_def split: sum.splits if_splits option.splits)
  then show ?thesis
  proof cases
    case 1
    from 1(2) have "s \<in> snd ` set ces" by (force dest: map_of_SomeD)
    with 1(1) show ?thesis by (rule weight_switch_case)
  next
    case 2
    then show ?thesis by (rule weight_switch_default)
  qed
qed

subsection \<open>The \<^verbatim>\<open>subentries\<close> property\<close>

text \<open>
  \<^verbatim>\<open>subentries\<close> by class: \<^verbatim>\<open>None\<close> for \<^verbatim>\<open>EntryConstruct\<close> and the leaf classes, the
  stored list for a struct, the synchronised list for an array (here from a freshly
  constructed array entry, whose cache is empty), the active branch's sub-entries or the
  static branch list for the conditional entries, and the sub-entries of
  \<^verbatim>\<open>self.subentry\<close> for the other \<^verbatim>\<open>EntrySubconstruct\<close> classes (reversed for a
  \<^verbatim>\<open>TStruct\<close> with \<^verbatim>\<open>reverse\<close> set).
\<close>

function subentries :: "'c pyval \<Rightarrow> 'c entry \<Rightarrow> error + 'c entry option list option" where
  "subentries root e =
     (if eclass e = EntryStruct then map_sum id Some (EntryStruct_subentries e)
      else if eclass e = EntryArray then map_sum id Some (EntryArray_subentries root e [])
      else if eclass e = EntryGreedyRange then map_sum id Some (EntryGreedyRange_subentries root e [])
      else if eclass e = EntryIfThenElse then
        (case EntryIfThenElse_get_subentry root e of
           Inl err \<Rightarrow> Inl err
         | Inr None \<Rightarrow> map_sum id Some (EntryIfThenElse_subentries_attr e)
         | Inr (Some s) \<Rightarrow> subentries root s)
      else if eclass e = EntrySwitch then
        (case EntrySwitch_get_subentry root e of
           Inl err \<Rightarrow> Inl err
         | Inr None \<Rightarrow> map_sum id Some (EntrySwitch_subentries_attr e)
         | Inr (Some s) \<Rightarrow> subentries root s)
      else if eclass e = EntryTStruct \<or> eclass e = EntryTBitStruct then
        (case subentry e of
           Inl err \<Rightarrow> Inl err
         | Inr None \<Rightarrow> Inl AttributeError
         | Inr (Some s) \<Rightarrow>
             (case subentries root s of
                Inl err \<Rightarrow> Inl err
              | Inr None \<Rightarrow> Inr None
              | Inr (Some subs) \<Rightarrow>
                  (case reverse_of (construct e) of
                     Inl err \<Rightarrow> Inl err
                   | Inr r \<Rightarrow> Inr (Some (if r then rev subs else subs)))))
      else if is_subconstruct_class (eclass e) then
        (case subentry e of
           Inl err \<Rightarrow> Inl err
         | Inr None \<Rightarrow> Inl AttributeError
         | Inr (Some s) \<Rightarrow> subentries root s)
      else Inr None)"
  by pat_completeness auto
termination
  by (relation "measure (\<lambda>(root, e). weight (construct e))")
     (auto dest: weight_subentry weight_ite_branch weight_switch_branch)

declare subentries.simps [simp del]

lemma entry_measure_lower:
  "weight (construct s) < weight (construct e) \<Longrightarrow> entry_measure s < entry_measure e"
  by (simp add: entry_measure_def)

lemma entry_measure_via:
  "weight (construct d) < weight (construct e) \<Longrightarrow> entry_measure s < entry_measure d \<Longrightarrow>
     entry_measure s < entry_measure e"
proof -
  assume w: "weight (construct d) < weight (construct e)" and m: "entry_measure s < entry_measure d"
  have "entry_measure d \<le> 2 * weight (construct d) + 1" by (simp add: entry_measure_def)
  moreover have "2 * weight (construct d) + 1 < 2 * weight (construct e)" using w by arith
  moreover have "2 * weight (construct e) \<le> entry_measure e" by (simp add: entry_measure_def)
  ultimately show ?thesis using m by arith
qed

lemma insert_entries_member:
  "insert_entries e idx cache = Inr res \<Longrightarrow> Some s \<in> set res \<Longrightarrow>
     Some s \<in> set cache \<or>
     (eclass s = EntryRenamed \<and> weight (construct s) \<le> weight (construct e))"
proof (induction idx arbitrary: cache)
  case Nil
  then show ?case by simp
next
  case (Cons i idx)
  from Cons.prems(1) obtain c sub where c: "subcon_of (construct e) = Inr c"
    and cr: "create_entry_from_construct (Some e) (cs_Renamed_new c (str_nat i)) = Inr sub"
    and rest: "insert_entries e idx (cache @ [sub]) = Inr res"
    by (auto simp: insert_entry_def split: sum.splits)
  from Cons.IH[OF rest Cons.prems(2)] show ?case
  proof
    assume "Some s \<in> set (cache @ [sub])"
    then consider "Some s \<in> set cache" | "sub = Some s" by auto
    then show ?thesis
    proof cases
      case 1
      then show ?thesis by simp
    next
      case 2
      with cr have "EntryRenamed_init (Some e) (cs_Renamed_new c (str_nat i)) False = Inr s"
        by (cases "EntryRenamed_init (Some e) (cs_Renamed_new c (str_nat i)) False")
           (auto simp: create_entry_Renamed)
      from EntryRenamed_init_Inr[OF this] weight_subcon[OF c] show ?thesis
        by (simp add: weight_Renamed)
    qed
  qed simp
qed

lemma sync_subentries_member:
  "sync_subentries e n [] = Inr res \<Longrightarrow> Some s \<in> set res \<Longrightarrow>
     eclass s = EntryRenamed \<and> weight (construct s) \<le> weight (construct e)"
  using insert_entries_member[of e "[0..<nat n]" "[]" res s]
  by (auto simp: sync_subentries_def split: if_splits)

lemma array_child_measure:
  "eclass e = EntryArray \<or> eclass e = EntryGreedyRange \<Longrightarrow>
   eclass s = EntryRenamed \<and> weight (construct s) \<le> weight (construct e) \<Longrightarrow>
   entry_measure s < entry_measure e"
  by (auto simp: entry_measure_def)

lemma create_entries_member:
  "create_entries e cs = Inr res \<Longrightarrow> Some s \<in> set res \<Longrightarrow> construct s \<in> set cs"
proof (induction cs arbitrary: res)
  case Nil
  then show ?case by simp
next
  case (Cons c cs)
  then show ?case by (auto split: sum.splits dest: create_entry_from_construct_Some)
qed

lemma weight_struct_child:
  "EntryStruct_subentries e = Inr res \<Longrightarrow> Some s \<in> set res \<Longrightarrow>
     weight (construct s) < weight (construct e)"
proof -
  assume a: "EntryStruct_subentries e = Inr res" and m: "Some s \<in> set res"
  from a obtain cs where cs: "subcons_of (construct e) = Inr cs"
    and r: "create_entries e cs = Inr res"
    by (auto simp: EntryStruct_subentries_def split: sum.splits)
  from create_entries_member[OF r m] have "weight (construct s) \<in> set (map weight cs)" by simp
  then have "weight (construct s) \<le> sum_list (map weight cs)"
    by (simp add: member_le_sum_list)
  with cs show ?thesis by (cases "construct e") auto
qed

lemma EntryRenamed_init_Renamed:
  "EntryRenamed_init par (cs_Renamed_new a nm) x =
     Inr (Entry EntryRenamed par (cs_Renamed_new a nm)
            (if construct_name (cs_Renamed_new a nm) = construct_name a then True else x))"
  by (simp add: EntryRenamed_init_def cs_Renamed_new_def)

lemma weight_ite_static:
  "EntryIfThenElse_subentries_attr e = Inr res \<Longrightarrow> Some s \<in> set res \<Longrightarrow>
     weight (construct s) < weight (construct e)"
proof -
  assume a: "EntryIfThenElse_subentries_attr e = Inr res" and m: "Some s \<in> set res"
  from a obtain t el where t: "subentry_then e = Inr t" and el: "subentry_else e = Inr el"
    and res: "res = [Some t, Some el]"
    by (cases "subentry_then e"; cases "subentry_else e")
       (auto simp: EntryIfThenElse_subentries_attr_def)
  from t obtain c nm where tc: "thensubcon_of (construct e) = Inr c"
    "construct t = cs_Renamed_new c nm"
    by (cases "thensubcon_of (construct e)"; cases "condfunc_of (construct e)")
       (auto simp: subentry_then_def EntryRenamed_init_Renamed)
  from el obtain c' nm' where ec: "elsesubcon_of (construct e) = Inr c'"
    "construct el = cs_Renamed_new c' nm'"
    by (cases "elsesubcon_of (construct e)")
       (auto simp: subentry_else_def EntryRenamed_init_Renamed)
  from m res have "s = t \<or> s = el" by auto
  then show ?thesis
  proof
    assume "s = t"
    with tc show ?thesis by (cases "construct e") (auto simp: weight_Renamed)
  next
    assume "s = el"
    with ec show ?thesis by (cases "construct e") (auto simp: weight_Renamed)
  qed
qed

lemma weight_switch_static:
  "EntrySwitch_subentries_attr e = Inr res \<Longrightarrow> Some s \<in> set res \<Longrightarrow>
     weight (construct s) < weight (construct e)"
proof -
  assume a: "EntrySwitch_subentries_attr e = Inr res" and m: "Some s \<in> set res"
  from a obtain ces where ces: "subentry_cases e = Inr ces"
    by (cases "subentry_cases e") (auto simp: EntrySwitch_subentries_attr_def)
  from a ces obtain d where d: "subentry_default e = Inr d"
    by (cases "subentry_default e") (auto simp: EntrySwitch_subentries_attr_def)
  from a ces d have "res = map (\<lambda>kc. Some (snd kc)) ces @ (case d of None \<Rightarrow> [] | Some x \<Rightarrow> [Some x])"
    by (cases d) (auto simp: EntrySwitch_subentries_attr_def)
  with m consider "s \<in> snd ` set ces" | "d = Some s"
    by (cases d) auto
  then show ?thesis
  proof cases
    case 1
    with ces show ?thesis by (rule weight_switch_case)
  next
    case 2
    with d show ?thesis by (auto intro: weight_switch_default)
  qed
qed

subsection \<open>The class cases of subentries\<close>

lemma subentries_Struct:
  "eclass e = EntryStruct \<Longrightarrow> subentries root e = map_sum id Some (EntryStruct_subentries e)"
  by (simp add: subentries.simps[of root e])

lemma subentries_Array:
  "eclass e = EntryArray \<Longrightarrow>
     subentries root e = map_sum id Some (EntryArray_subentries root e [])"
  by (simp add: subentries.simps[of root e])

lemma subentries_GreedyRange:
  "eclass e = EntryGreedyRange \<Longrightarrow>
     subentries root e = map_sum id Some (EntryGreedyRange_subentries root e [])"
  by (simp add: subentries.simps[of root e])

lemma subentries_IfThenElse:
  "eclass e = EntryIfThenElse \<Longrightarrow>
     subentries root e =
       (case EntryIfThenElse_get_subentry root e of
          Inl err \<Rightarrow> Inl err
        | Inr None \<Rightarrow> map_sum id Some (EntryIfThenElse_subentries_attr e)
        | Inr (Some s) \<Rightarrow> subentries root s)"
  by (simp add: subentries.simps[of root e])

lemma subentries_Switch:
  "eclass e = EntrySwitch \<Longrightarrow>
     subentries root e =
       (case EntrySwitch_get_subentry root e of
          Inl err \<Rightarrow> Inl err
        | Inr None \<Rightarrow> map_sum id Some (EntrySwitch_subentries_attr e)
        | Inr (Some s) \<Rightarrow> subentries root s)"
  by (simp add: subentries.simps[of root e])

lemma subentries_TStruct:
  "eclass e = EntryTStruct \<or> eclass e = EntryTBitStruct \<Longrightarrow>
     subentries root e =
       (case subentry e of
          Inl err \<Rightarrow> Inl err
        | Inr None \<Rightarrow> Inl AttributeError
        | Inr (Some s) \<Rightarrow>
            (case subentries root s of
               Inl err \<Rightarrow> Inl err
             | Inr None \<Rightarrow> Inr None
             | Inr (Some subs) \<Rightarrow>
                 (case reverse_of (construct e) of
                    Inl err \<Rightarrow> Inl err
                  | Inr r \<Rightarrow> Inr (Some (if r then rev subs else subs)))))"
  by (auto simp: subentries.simps[of root e])

lemma subentries_delegate:
  "eclass e \<noteq> EntryStruct \<Longrightarrow> eclass e \<noteq> EntryArray \<Longrightarrow> eclass e \<noteq> EntryGreedyRange \<Longrightarrow>
   eclass e \<noteq> EntryIfThenElse \<Longrightarrow> eclass e \<noteq> EntrySwitch \<Longrightarrow>
   \<not> (eclass e = EntryTStruct \<or> eclass e = EntryTBitStruct) \<Longrightarrow>
     subentries root e =
       (if is_subconstruct_class (eclass e)
        then (case subentry e of
                Inl err \<Rightarrow> Inl err
              | Inr None \<Rightarrow> Inl AttributeError
              | Inr (Some s) \<Rightarrow> subentries root s)
        else Inr None)"
  by (simp add: subentries.simps[of root e])

lemma subentries_child_measure:
  "subentries root e = Inr (Some subs) \<Longrightarrow> Some s \<in> set subs \<Longrightarrow>
     entry_measure s < entry_measure e"
proof (induction root e arbitrary: subs rule: subentries.induct)
  case (1 root e)
  consider (struct) "eclass e = EntryStruct"
    | (array) "eclass e = EntryArray"
    | (greedy) "eclass e = EntryGreedyRange"
    | (ite) "eclass e = EntryIfThenElse"
    | (switch) "eclass e = EntrySwitch"
    | (tstruct) "eclass e = EntryTStruct \<or> eclass e = EntryTBitStruct"
    | (other) "eclass e \<noteq> EntryStruct" "eclass e \<noteq> EntryArray" "eclass e \<noteq> EntryGreedyRange"
        "eclass e \<noteq> EntryIfThenElse" "eclass e \<noteq> EntrySwitch"
        "\<not> (eclass e = EntryTStruct \<or> eclass e = EntryTBitStruct)"
    by blast
  then show ?case
  proof cases
    case struct
    with "1.prems" obtain res where "EntryStruct_subentries e = Inr res" "Some s \<in> set res"
      by (cases "EntryStruct_subentries e") (auto simp: subentries_Struct)
    then show ?thesis by (intro entry_measure_lower weight_struct_child)
  next
    case array
    with "1.prems" obtain n where "sync_subentries e n [] = Inr subs"
      by (cases "EntryArray_array_len root e")
         (auto simp: subentries_Array EntryArray_subentries_def map_sum_def split: sum.splits)
    from sync_subentries_member[OF this "1.prems"(2)] array show ?thesis
      by (intro array_child_measure) auto
  next
    case greedy
    with "1.prems" have "sync_subentries e (EntryGreedyRange_array_len root e) [] = Inr subs"
      by (cases "sync_subentries e (EntryGreedyRange_array_len root e) []")
         (auto simp: subentries_GreedyRange EntryGreedyRange_subentries_def)
    from sync_subentries_member[OF this "1.prems"(2)] greedy show ?thesis
      by (intro array_child_measure) auto
  next
    case ite
    show ?thesis
    proof (cases "EntryIfThenElse_get_subentry root e")
      case (Inl err)
      with ite "1.prems" show ?thesis by (simp add: subentries_IfThenElse)
    next
      case (Inr b)
      show ?thesis
      proof (cases b)
        case None
        with Inr ite "1.prems" obtain res where
          "EntryIfThenElse_subentries_attr e = Inr res" "Some s \<in> set res"
          by (cases "EntryIfThenElse_subentries_attr e") (auto simp: subentries_IfThenElse)
        then show ?thesis by (intro entry_measure_lower weight_ite_static)
      next
        case (Some d)
        with Inr ite "1.prems" have sd: "subentries root d = Inr (Some subs)"
          by (simp add: subentries_IfThenElse)
        have "entry_measure s < entry_measure d"
          using "1.IH"(1) ite Inr Some sd "1.prems"(2) by simp
        moreover from Inr Some have "weight (construct d) < weight (construct e)"
          by (auto dest: weight_ite_branch)
        ultimately show ?thesis by (rule entry_measure_via[rotated])
      qed
    qed
  next
    case switch
    show ?thesis
    proof (cases "EntrySwitch_get_subentry root e")
      case (Inl err)
      with switch "1.prems" show ?thesis by (simp add: subentries_Switch)
    next
      case (Inr b)
      show ?thesis
      proof (cases b)
        case None
        with Inr switch "1.prems" obtain res where
          "EntrySwitch_subentries_attr e = Inr res" "Some s \<in> set res"
          by (cases "EntrySwitch_subentries_attr e") (auto simp: subentries_Switch)
        then show ?thesis by (intro entry_measure_lower weight_switch_static)
      next
        case (Some d)
        with Inr switch "1.prems" have sd: "subentries root d = Inr (Some subs)"
          by (simp add: subentries_Switch)
        have "entry_measure s < entry_measure d"
          using "1.IH"(2) switch Inr Some sd "1.prems"(2) by simp
        moreover from Inr Some have "weight (construct d) < weight (construct e)"
          by (auto dest: weight_switch_branch)
        ultimately show ?thesis by (rule entry_measure_via[rotated])
      qed
    qed
  next
    case tstruct
    then have cls: "eclass e \<noteq> EntryStruct" "eclass e \<noteq> EntryArray"
      "eclass e \<noteq> EntryGreedyRange" "eclass e \<noteq> EntryIfThenElse" "eclass e \<noteq> EntrySwitch"
      by auto
    from "1.prems"(1) tstruct obtain d subs' where d: "subentry e = Inr (Some d)"
      and subs': "subentries root d = Inr (Some subs')" and set: "set subs = set subs'"
      by (auto simp: subentries_TStruct split: sum.splits option.splits if_splits)
    have "entry_measure s < entry_measure d"
      using "1.IH"(3)[OF cls tstruct d refl subs'] "1.prems"(2) set by simp
    moreover from d have "weight (construct d) < weight (construct e)" by (rule weight_subentry)
    ultimately show ?thesis by (rule entry_measure_via[rotated])
  next
    case other
    from "1.prems"(1) other obtain d where sc: "is_subconstruct_class (eclass e)"
      and d: "subentry e = Inr (Some d)"
      and subs': "subentries root d = Inr (Some subs)"
      by (auto simp: subentries_delegate split: sum.splits option.splits if_splits)
    have "entry_measure s < entry_measure d"
      using "1.IH"(4)[OF other(1-5) _ sc d refl subs' "1.prems"(2)] other(6) by simp
    moreover from d have "weight (construct d) < weight (construct e)" by (rule weight_subentry)
    ultimately show ?thesis by (rule entry_measure_via[rotated])
  qed
qed

subsection \<open>Flattening\<close>

text \<open>
  \<^verbatim>\<open>create_flat_subentry_list\<close> appends to the list it is given:
  \<^verbatim>\<open>
    if self.subentries is not None:
        for subentry in self.subentries:
            subentry.create_flat_subentry_list(flat_subentry_list)
    else:
        flat_subentry_list.append(self)
  \<close>
\<close>

function create_flat_subentry_list ::
  "'c pyval \<Rightarrow> 'c entry \<Rightarrow> 'c entry list \<Rightarrow> error + 'c entry list" where
  "create_flat_subentry_list root e flat_subentry_list =
     (case subentries root e of
        Inl err \<Rightarrow> Inl err
      | Inr None \<Rightarrow> Inr (flat_subentry_list @ [e])
      | Inr (Some subs) \<Rightarrow>
          fold (\<lambda>sub acc.
                  case acc of
                    Inl err \<Rightarrow> Inl err
                  | Inr flat \<Rightarrow>
                      (case sub of
                         None \<Rightarrow> Inl AttributeError
                       | Some s \<Rightarrow> create_flat_subentry_list root s flat))
               subs (Inr flat_subentry_list))"
  by pat_completeness auto
termination
  by (relation "measure (\<lambda>(root, e, flat). entry_measure e)")
     (auto dest: subentries_child_measure)

declare create_flat_subentry_list.simps [simp del]

subsection \<open>Depth-first leaves\<close>

text \<open>
  The flattening as the specification words it: the leaves of the subtree of an entry in
  depth-first order, containers left out.  An entry without sub-entries is its own only
  leaf; a container contributes the leaves of its children, in order.
\<close>

fun concat_results :: "(error + 'a list) list \<Rightarrow> error + 'a list" where
  "concat_results [] = Inr []"
| "concat_results (Inl err # rs) = Inl err"
| "concat_results (Inr xs # rs) =
     (case concat_results rs of Inl err \<Rightarrow> Inl err | Inr ys \<Rightarrow> Inr (xs @ ys))"

function flat_leaves :: "'c pyval \<Rightarrow> 'c entry \<Rightarrow> error + 'c entry list" where
  "flat_leaves root e =
     (case subentries root e of
        Inl err \<Rightarrow> Inl err
      | Inr None \<Rightarrow> Inr [e]
      | Inr (Some subs) \<Rightarrow>
          concat_results
            (map (\<lambda>sub. case sub of
                          None \<Rightarrow> Inl AttributeError
                        | Some s \<Rightarrow> flat_leaves root s)
                 subs))"
  by pat_completeness auto
termination
  by (relation "measure (\<lambda>(root, e). entry_measure e)")
     (auto dest: subentries_child_measure)

declare flat_leaves.simps [simp del]

section \<open>Labels of the conditional entries\<close>

text \<open>
  \<^verbatim>\<open>typ_str\<close> and \<^verbatim>\<open>obj_str\<close> of \<^verbatim>\<open>EntryIfThenElse\<close> and \<^verbatim>\<open>EntrySwitch\<close> ask
  \<^verbatim>\<open>_get_subentry\<close> for the active branch and hand over to its property; without an active
  branch they give the static label.  The property of the branch entry is dispatched on its
  class; it is the first argument here.
\<close>

definition EntryIfThenElse_obj_str ::
  "('c pyval \<Rightarrow> 'c entry \<Rightarrow> error + string) \<Rightarrow> 'c pyval \<Rightarrow> 'c entry \<Rightarrow> error + string" where
  "EntryIfThenElse_obj_str obj_str_of root e =
     (case EntryIfThenElse_get_subentry root e of
        Inl err \<Rightarrow> Inl err
      | Inr None \<Rightarrow> Inr []
      | Inr (Some s) \<Rightarrow> obj_str_of root s)"

definition EntryIfThenElse_typ_str ::
  "('c pyval \<Rightarrow> 'c entry \<Rightarrow> error + string) \<Rightarrow> 'c pyval \<Rightarrow> 'c entry \<Rightarrow> error + string" where
  "EntryIfThenElse_typ_str typ_str_of root e =
     (case EntryIfThenElse_get_subentry root e of
        Inl err \<Rightarrow> Inl err
      | Inr None \<Rightarrow> Inr ''IfThenElse''
      | Inr (Some s) \<Rightarrow> typ_str_of root s)"

definition EntrySwitch_obj_str ::
  "('c pyval \<Rightarrow> 'c entry \<Rightarrow> error + string) \<Rightarrow> 'c pyval \<Rightarrow> 'c entry \<Rightarrow> error + string" where
  "EntrySwitch_obj_str obj_str_of root e =
     (case EntrySwitch_get_subentry root e of
        Inl err \<Rightarrow> Inl err
      | Inr None \<Rightarrow> Inr []
      | Inr (Some s) \<Rightarrow> obj_str_of root s)"

definition EntrySwitch_typ_str ::
  "('c pyval \<Rightarrow> 'c entry \<Rightarrow> error + string) \<Rightarrow> 'c pyval \<Rightarrow> 'c entry \<Rightarrow> error + string" where
  "EntrySwitch_typ_str typ_str_of root e =
     (case EntrySwitch_get_subentry root e of
        Inl err \<Rightarrow> Inl err
      | Inr None \<Rightarrow> Inr ''Switch''
      | Inr (Some s) \<Rightarrow> typ_str_of root s)"

section \<open>The model\<close>

text \<open>
  \<^verbatim>\<open>ConstructEditorModel\<close> holds the root object, the entries shown as lists and the command
  processor.  \<^verbatim>\<open>on_value_changed\<close> is an abstract hook of the embedding application; the
  model records its calls.  A command is the closure \<^verbatim>\<open>Cmd\<close> of \<^verbatim>\<open>set_value\<close>: the
  entry, the value read before the edit, the value to store, the backup taken by
  \<^verbatim>\<open>do\<close>, and its label.
\<close>

record 'c Cmd =
  cmd_entry :: "'c entry"
  current_value :: "'c pyval"
  new_value :: "'c pyval"
  obj_backup :: "'c pyval option"
  cmd_name :: string

record 'c ConstructEditorModel =
  root_obj :: "'c pyval"
  list_viewed_entries :: "'c entry list"
  commands :: "'c Cmd list"
  value_changed :: "'c entry list"

text \<open>
  A call on the model returns, or raises; either way it leaves a model state behind.
\<close>

datatype 'c outcome =
    Returned "'c ConstructEditorModel"
  | Raised error "'c ConstructEditorModel"

definition on_value_changed :: "'c ConstructEditorModel \<Rightarrow> 'c entry \<Rightarrow> 'c ConstructEditorModel" where
  "on_value_changed m e = m\<lparr>value_changed := value_changed m @ [e]\<rparr>"

subsection \<open>\<^verbatim>\<open>get_value\<close>\<close>

text \<open>
  \<^verbatim>\<open>
    if column == ConstructEditorColumn.Name:  return entry.name
    if column == ConstructEditorColumn.Type:  return entry.typ_str
    if column == ConstructEditorColumn.Value: return entry
    if (entry.parent is None) or (entry.parent not in self.list_viewed_entries):
        return ""
    column = column - len(ConstructEditorColumn)
    flat_subentry_list = []
    entry.create_flat_subentry_list(flat_subentry_list)
    if len(flat_subentry_list) > column: return flat_subentry_list[column].obj_str
    else:                                return ""
  \<close>
  The result is a string or the entry itself.  \<^verbatim>\<open>typ_str\<close> and \<^verbatim>\<open>obj_str\<close> are
  properties dispatched on the class of the entry; they are arguments here.  Entries do
  not define equality, so membership in \<^verbatim>\<open>list_viewed_entries\<close> is by identity; an entry
  is identified by the constructor arguments that represent it.
\<close>

datatype 'c cell = CellStr string | CellEntry "'c entry"

definition get_value ::
  "('c pyval \<Rightarrow> 'c entry \<Rightarrow> error + string) \<Rightarrow> ('c pyval \<Rightarrow> 'c entry \<Rightarrow> error + string) \<Rightarrow>
   'c ConstructEditorModel \<Rightarrow> 'c entry \<Rightarrow> int \<Rightarrow> error + 'c cell" where
  "get_value typ_str_of obj_str_of m e column =
     (if column = 0 then Inr (CellStr (name e))
      else if column = 1 then map_sum id CellStr (typ_str_of (root_obj m) e)
      else if column = 2 then Inr (CellEntry e)
      else
        (case parent e of
           None \<Rightarrow> Inr (CellStr [])
         | Some p \<Rightarrow>
             if p \<notin> set (list_viewed_entries m) then Inr (CellStr [])
             else
               (case create_flat_subentry_list (root_obj m) e [] of
                  Inl err \<Rightarrow> Inl err
                | Inr flat \<Rightarrow>
                    if int (length flat) > column - 3
                    then (case list_index (length flat) (column - 3) of
                            Inl err \<Rightarrow> Inl err
                          | Inr k \<Rightarrow> map_sum id CellStr (obj_str_of (root_obj m) (flat ! k)))
                    else Inr (CellStr []))))"

subsection \<open>\<^verbatim>\<open>set_value\<close> and its command\<close>

text \<open>
  \<^verbatim>\<open>Cmd.__init__\<close> builds the label \<^verbatim>\<open>f"Value '{entry.path[-1]}' changed"\<close>; on an empty
  path \<^verbatim>\<open>entry.path[-1]\<close> raises \<^verbatim>\<open>IndexError\<close>.
\<close>

definition Cmd_init :: "'c entry \<Rightarrow> 'c pyval \<Rightarrow> 'c pyval \<Rightarrow> error + 'c Cmd" where
  "Cmd_init e current new =
     (if path e = [] then Inl IndexError
      else Inr \<lparr>cmd_entry = e, current_value = current, new_value = new, obj_backup = None,
                cmd_name = ''Value '' @ [CHR 0x27] @ last (path e) @ [CHR 0x27] @ '' changed''\<rparr>)"

text \<open>
  \<^verbatim>\<open>
    def do(self):
        self._obj_backup = current_value
        entry.obj = new_value
        model.on_value_changed(entry)
    def undo(self):
        entry.obj = self._obj_backup
        model.on_value_changed(entry)
  \<close>
\<close>

definition Cmd_do :: "'c ConstructEditorModel \<Rightarrow> 'c Cmd \<Rightarrow> 'c outcome \<times> 'c Cmd" where
  "Cmd_do m cmd =
     (let cmd' = cmd\<lparr>obj_backup := Some (current_value cmd)\<rparr>
      in case obj_set (root_obj m) (cmd_entry cmd) (new_value cmd) of
           Inl err \<Rightarrow> (Raised err m, cmd')
         | Inr root' \<Rightarrow>
             (Returned (on_value_changed (m\<lparr>root_obj := root'\<rparr>) (cmd_entry cmd)), cmd'))"

definition Cmd_undo :: "'c ConstructEditorModel \<Rightarrow> 'c Cmd \<Rightarrow> 'c outcome" where
  "Cmd_undo m cmd =
     (case obj_backup cmd of
        None \<Rightarrow> Raised AttributeError m
      | Some backup \<Rightarrow>
          (case obj_set (root_obj m) (cmd_entry cmd) backup of
             Inl err \<Rightarrow> Raised err m
           | Inr root' \<Rightarrow> Returned (on_value_changed (m\<lparr>root_obj := root'\<rparr>) (cmd_entry cmd))))"

text \<open>
  Modelled from the spec: the command processor (\<^verbatim>\<open>construct_editor.core.commands\<close>) is not
  part of the sources at hand.  The spec gives its contract: \<open>submit(command)\<close>
  synchronously invokes \<open>do()\<close> once, and the service keeps a bounded history.  The model
  creates it with \<^verbatim>\<open>CommandProcessor(max_commands=20)\<close>.
\<close>

definition max_commands :: nat where
  "max_commands = 20"

definition submit :: "'c ConstructEditorModel \<Rightarrow> 'c Cmd \<Rightarrow> 'c outcome" where
  "submit m cmd =
     (case Cmd_do m cmd of
        (Returned m', cmd') \<Rightarrow>
          Returned (m'\<lparr>commands :=
            drop (Suc (length (commands m')) - max_commands) (commands m' @ [cmd'])\<rparr>)
      | (Raised err m', cmd') \<Rightarrow> Raised err m')"

text \<open>
  \<^verbatim>\<open>
    if column != ConstructEditorColumn.Value:
        raise ValueError(f"{column=} cannot be modified")
    current_value = entry.obj
    metadata = get_gui_metadata(current_value)
    if metadata is not None:
        new_value = add_gui_metadata(new_value, metadata)
    ...
    self.command_processor.submit(Cmd())
  \<close>
\<close>

definition link_metadata :: "'c pyval \<Rightarrow> 'c pyval \<Rightarrow> 'c pyval" where
  "link_metadata current new =
     (case get_gui_metadata current of
        None \<Rightarrow> new
      | Some metadata \<Rightarrow> add_gui_metadata new metadata)"

definition set_value ::
  "'c ConstructEditorModel \<Rightarrow> 'c pyval \<Rightarrow> 'c entry \<Rightarrow> int \<Rightarrow> 'c outcome" where
  "set_value m new e column =
     (if column \<noteq> 2 then Raised ValueError m
      else
        (case obj (root_obj m) e of
           Inl err \<Rightarrow> Raised err m
         | Inr current \<Rightarrow>
             (case Cmd_init e current (link_metadata current new) of
                Inl err \<Rightarrow> Raised err m
              | Inr cmd \<Rightarrow> submit m cmd)))"

section \<open>Path resolution as the specification words it\<close>

text \<open>
  \<open>read(rootObject, path)\<close> of the specification: index a map by key and a sequence by the
  integer parse of the segment, and fail with \<open>AddressingError\<close> when a segment is not
  present on a map, is not a valid index into a sequence, or the path runs past a leaf.
\<close>

datatype spec_error = AddressingError

fun read_spec :: "'c pyval \<Rightarrow> string list \<Rightarrow> spec_error + 'c pyval" where
  "read_spec v [] = Inr v"
| "read_spec (PyVal m (PyDict d)) (p # ps) =
     (case dict_getitem d p of Inl e \<Rightarrow> Inl AddressingError | Inr v \<Rightarrow> read_spec v ps)"
| "read_spec (PyVal m (PyList xs)) (p # ps) =
     (case list_getitem xs p of Inl e \<Rightarrow> Inl AddressingError | Inr v \<Rightarrow> read_spec v ps)"
| "read_spec v (p # ps) = Inl AddressingError"

section \<open>Example grammar and objects\<close>

text \<open>
  A small grammar for the concrete evaluations below: an 8-bit integer field, and the same
  field named \<open>a\<close> as the root of a tree (\<^verbatim>\<open>"a" / Int8ub\<close>).
\<close>

definition example_leaf :: "unit construct" where
  "example_leaf = Construct cs_FormatField [cs_Construct] None"

definition example_named_root :: "unit entry" where
  "example_named_root = Entry EntryRenamed None (cs_Renamed_new example_leaf ''a'') False"

definition example_child :: "unit entry" where
  "example_child = Entry EntryFormatField (Some example_named_root) example_leaf False"

text \<open>
  A struct with an integer field \<open>a\<close> and an array field \<open>xs\<close> of two integers, the
  object parsed from it, and the state in which no object is loaded
  (\<^verbatim>\<open>root_obj = None\<close>).
\<close>

definition example_array :: "unit construct" where
  "example_array = Array cs_Array [cs_Subconstruct, cs_Construct] None (Constant 2) example_leaf"

definition example_struct :: "unit construct" where
  "example_struct =
     Struct cs_Struct [cs_Construct] None
       [cs_Renamed_new example_leaf ''a'', cs_Renamed_new example_array ''xs'']"

definition example_root :: "unit entry" where
  "example_root = Entry EntryStruct None example_struct False"

definition example_field_a :: "unit entry" where
  "example_field_a =
     Entry EntryRenamed (Some example_root) (cs_Renamed_new example_leaf ''a'') False"

definition example_obj :: "unit pyval" where
  "example_obj =
     PyVal None (PyDict
       [(''a'', PyVal None (PyInt 5)),
        (''xs'', PyVal None (PyList [PyVal None (PyInt 10), PyVal None (PyInt 20)]))])"

definition no_obj :: "unit pyval" where
  "no_obj = PyVal None PyNone"

definition example_model :: "unit pyval \<Rightarrow> unit ConstructEditorModel" where
  "example_model root =
     \<lparr>root_obj = root, list_viewed_entries = [], commands = [], value_changed = []\<rparr>"

text \<open>
  The field \<open>a\<close> wrapped once more in a rename that gives no new name
  (\<^verbatim>\<open>Renamed("a" / Int8ub, newdocs=...)\<close>).
\<close>

definition example_nested :: "unit construct" where
  "example_nested = cs_Renamed_new (cs_Renamed_new example_leaf ''a'') []"

text \<open>
  Nodes for the factory: a subclass of \<^verbatim>\<open>Struct\<close> that is not registered itself, a
  subconstruct none of whose classes is registered, and an object that is not a grammar
  node.
\<close>

definition example_substruct :: "unit construct" where
  "example_substruct = Struct (OtherType ''BitStruct'') [cs_Struct, cs_Construct] None []"

definition example_padded :: "unit construct" where
  "example_padded =
     Subconstruct (OtherType ''Padded'') [cs_Subconstruct, cs_Construct] None example_leaf"

definition example_int :: "unit construct" where
  "example_int = Construct (OtherType ''int'') [] None"

text \<open>
  The entry of the element \<open>xs[1]\<close>, with the path \<open>[xs, 1]\<close>, and an object whose list
  \<open>xs\<close> has one element only.
\<close>

definition example_item :: "unit entry" where
  "example_item =
     Entry EntryRenamed
       (Some (Entry EntryArray
                (Some (Entry EntryRenamed (Some example_root)
                         (cs_Renamed_new example_array ''xs'') False))
                example_array False))
       (cs_Renamed_new example_leaf ''1'') False"

definition example_short_obj :: "unit pyval" where
  "example_short_obj = PyVal None (PyDict [(''xs'', PyVal None (PyList [PyVal None (PyInt 10)]))])"

text \<open>
  A struct with a conditional field \<open>c\<close> and a switch field \<open>s\<close>.  The predicate and the key
  function read a member of the parse context that the context does not have, as
  \<^verbatim>\<open>this.flag\<close> does on an empty context; the object gives both fields the value 5, with
  or without attached metadata.  \<open>no_label\<close> stands for the label property of a branch entry
  where none is asked for.
\<close>

definition example_ite :: "unit construct" where
  "example_ite =
     IfThenElse cs_IfThenElse [cs_Construct] None
       (Callable ''this.flag'' (\<lambda>ctx. Inl KeyError)) example_leaf example_leaf"

definition example_switch :: "unit construct" where
  "example_switch =
     Switch cs_Switch [cs_Construct] None
       (Callable ''this.kind'' (\<lambda>ctx. Inl KeyError)) [(KeyInt 1, example_leaf)] None"

definition example_cond_root :: "unit entry" where
  "example_cond_root =
     Entry EntryStruct None
       (Struct cs_Struct [cs_Construct] None
          [cs_Renamed_new example_ite ''c'', cs_Renamed_new example_switch ''s''])
       False"

definition example_ite_entry :: "unit entry" where
  "example_ite_entry =
     Entry EntryIfThenElse
       (Some (Entry EntryRenamed (Some example_cond_root) (cs_Renamed_new example_ite ''c'') False))
       example_ite False"

definition example_switch_entry :: "unit entry" where
  "example_switch_entry =
     Entry EntrySwitch
       (Some (Entry EntryRenamed (Some example_cond_root) (cs_Renamed_new example_switch ''s'') False))
       example_switch False"

definition example_cond_obj :: "unit GuiMetaData option \<Rightarrow> unit pyval" where
  "example_cond_obj md =
     PyVal None (PyDict [(''c'', PyVal md (PyInt 5)), (''s'', PyVal md (PyInt 5))])"

definition no_label :: "unit pyval \<Rightarrow> unit entry \<Rightarrow> error + string" where
  "no_label root e = Inr []"

text \<open>
  The entry of the array field \<open>xs\<close>, and a root entry for an array declared with the
  count \<open>-1\<close> (\<^verbatim>\<open>Array(-1, Int8ub)\<close>).
\<close>

definition example_xs_entry :: "unit entry" where
  "example_xs_entry =
     Entry EntryArray
       (Some (Entry EntryRenamed (Some example_root) (cs_Renamed_new example_array ''xs'') False))
       example_array False"


text \<open>
  A model in which the field \<open>xs\<close> and its array are shown as lists, and a label property
  that gives the name of an entry.
\<close>

definition example_list_model :: "unit ConstructEditorModel" where
  "example_list_model =
     \<lparr>root_obj = example_obj,
      list_viewed_entries =
        [Entry EntryRenamed (Some example_root) (cs_Renamed_new example_array ''xs'') False,
         example_xs_entry],
      commands = [], value_changed = []\<rparr>"

definition name_label :: "unit pyval \<Rightarrow> unit entry \<Rightarrow> error + string" where
  "name_label root e = Inr (name e)"

text \<open>What a call left behind: the exception, if any, and the model state.\<close>

fun raised :: "'c outcome \<Rightarrow> error option" where
  "raised (Returned m) = None"
| "raised (Raised err m) = Some err"

fun model_after :: "'c outcome \<Rightarrow> 'c ConstructEditorModel" where
  "model_after (Returned m) = m"
| "model_after (Raised err m) = m"

section \<open>Verified properties\<close>

subsection \<open>Paths\<close>

text \<open>
  C3, as the code has it: an entry with a parent has the path of its parent, extended by
  its own name when the name is non-empty and the entry is not marked exclude-from-path;
  an entry without a parent (the root entry) has the empty path, whether or not it is
  named.
\<close>

theorem path_of_entry:
  "path e =
     (case parent e of
        None \<Rightarrow> []
      | Some p \<Rightarrow> if name e \<noteq> [] \<and> \<not> excluded e then path p @ [name e] else path p)"
  by (cases e) (auto simp: excluded_def split: option.splits)

theorem path_of_entry_witness:
  "path example_child = path example_named_root \<and> path example_named_root = []"
  using path_of_entry [of example_child] path_of_entry [of example_named_root]
  by (simp add: example_child_def example_named_root_def example_leaf_def name_def excluded_def)

text \<open>
  The claim as written gives a named root entry the path \<open>[name]\<close>.  The root entry of
  \<^verbatim>\<open>"a" / Int8ub\<close> has no parent, is not excluded and is named \<open>a\<close>, and its path is empty.
\<close>

theorem named_root_path_counterexample:
  "parent example_named_root = None \<and> \<not> excluded example_named_root \<and>
   name example_named_root = ''a'' \<and> path example_named_root \<noteq> [name example_named_root]"
  by (simp add: example_named_root_def example_leaf_def cs_Renamed_new_def name_def excluded_def)

subsection \<open>Reading and writing along a path\<close>

lemma obj_getter_leaf: "\<not> is_container v \<Longrightarrow> obj_getter v ps = Inr v"
  by (induction v ps rule: obj_getter.induct) (auto simp: is_container_def)

lemma read_spec_imp_getter: "read_spec root ps = Inr v \<Longrightarrow> obj_getter root ps = Inr v"
  by (induction root ps rule: read_spec.induct) (auto split: sum.splits)

lemma getter_cases:
  "obj_getter root ps = Inr v \<Longrightarrow>
     read_spec root ps = Inr v \<or> (\<not> is_container v \<and> (\<exists>k < length ps. read_spec root (take k ps) = Inr v))"
proof (induction ps arbitrary: root)
  case Nil
  then show ?case by simp
next
  case (Cons p ps)
  obtain m d where root: "root = PyVal m d" by (cases root)
  show ?case
  proof (cases "is_container root")
    case False
    then have "obj_getter root (p # ps) = Inr root" by (rule obj_getter_leaf)
    with Cons.prems have "v = root" by simp
    moreover have "read_spec root (take 0 (p # ps)) = Inr root" by simp
    ultimately show ?thesis using False by auto
  next
    case True
    then have "\<exists>w. obj_getter w ps = Inr v \<and>
       (\<forall>qs u. read_spec w qs = Inr u \<longrightarrow> read_spec root (p # qs) = Inr u)"
      using Cons.prems root by (cases d) (auto simp: is_container_def split: sum.splits)
    then obtain w where g: "obj_getter w ps = Inr v"
      and lift: "\<And>qs u. read_spec w qs = Inr u \<Longrightarrow> read_spec root (p # qs) = Inr u" by blast
    from Cons.IH[OF g] show ?thesis
    proof
      assume "read_spec w ps = Inr v"
      then show ?thesis using lift by blast
    next
      assume "\<not> is_container v \<and> (\<exists>k<length ps. read_spec w (take k ps) = Inr v)"
      then obtain k where nc: "\<not> is_container v" and k: "k < length ps"
        and r: "read_spec w (take k ps) = Inr v" by blast
      have "read_spec root (take (Suc k) (p # ps)) = Inr v" using lift[OF r] by simp
      moreover have "Suc k < length (p # ps)" using k by simp
      ultimately show ?thesis using nc by blast
    qed
  qed
qed

lemma getter_prefix_leaf:
  "read_spec root (take k ps) = Inr v \<Longrightarrow> \<not> is_container v \<Longrightarrow> obj_getter root ps = Inr v"
proof (induction ps arbitrary: root k)
  case Nil
  then show ?case by simp
next
  case (Cons p ps)
  show ?case
  proof (cases k)
    case 0
    with Cons.prems show ?thesis by (simp add: obj_getter_leaf)
  next
    case (Suc k')
    obtain m d where root: "root = PyVal m d" by (cases root)
    show ?thesis
      using Cons.prems Cons.IH[of _ k'] Suc root
      by (cases d) (auto split: sum.splits)
  qed
qed

lemma getter_error_kinds:
  "obj_getter root ps = Inl e \<Longrightarrow> e = KeyError \<or> e = ValueError \<or> e = IndexError"
  by (induction root ps rule: obj_getter.induct)
     (auto simp: dict_getitem_def list_getitem_def list_index_def py_int_def Let_def
           split: sum.splits option.splits if_splits)

lemma getter_error_spec:
  "obj_getter root ps = Inl e \<Longrightarrow> read_spec root ps = Inl AddressingError"
  by (induction root ps rule: obj_getter.induct) (auto split: sum.splits)

lemma list_index_less: "list_index n i = Inr k \<Longrightarrow> k < n"
  by (auto simp: list_index_def Let_def split: if_splits)

lemma dict_getitem_update: "dict_getitem (AList.update p v d) p = Inr v"
  by (simp add: dict_getitem_def update_conv')

lemma dict_update_same:
  "dict_getitem d p = Inr v \<Longrightarrow> AList.update p v d = d"
  by (auto simp: dict_getitem_def update_triv split: option.splits)

lemma dict_update_back:
  "dict_getitem d p = Inr v \<Longrightarrow> AList.update p v (AList.update p w d) = d"
  by (auto simp: dict_getitem_def update_triv split: option.splits)

lemma list_setitem_get:
  "list_getitem xs p = Inr old \<Longrightarrow>
     \<exists>ys. list_setitem xs p val = Inr ys \<and> list_getitem ys p = Inr val \<and>
          list_setitem ys p old = Inr xs"
  by (auto simp: list_getitem_def list_setitem_def dest: list_index_less split: sum.splits)

lemma setter_leaf: "\<not> is_container root \<Longrightarrow> obj_setter root ps val = Inr root"
  by (induction root ps val rule: obj_setter.induct) (auto simp: is_container_def)

lemma container_cases:
  "is_container root \<Longrightarrow> (\<exists>m d. root = PyVal m (PyDict d)) \<or> (\<exists>m xs. root = PyVal m (PyList xs))"
  by (cases root rule: is_dict.cases) (auto simp: is_container_def)

lemma set_get_undo:
  "ps \<noteq> [] \<Longrightarrow> obj_getter root (butlast ps) = Inr c \<Longrightarrow> is_container c \<Longrightarrow>
   obj_getter root ps = Inr old \<Longrightarrow>
   \<exists>root'. obj_setter root ps val = Inr root' \<and> obj_getter root' ps = Inr val \<and>
           obj_setter root' ps old = Inr root"
proof (induction ps arbitrary: root)
  case Nil
  then show ?case by simp
next
  case (Cons p ps)
  have croot: "is_container root"
  proof (rule ccontr)
    assume "\<not> is_container root"
    then have "obj_getter root (butlast (p # ps)) = Inr root" by (rule obj_getter_leaf)
    with Cons.prems(2) have "c = root" by simp
    with Cons.prems(3) \<open>\<not> is_container root\<close> show False by simp
  qed
  show ?case
  proof (cases ps)
    case Nil
    from croot show ?thesis
    proof (elim container_cases[THEN disjE] exE)
      fix m d assume r: "root = PyVal m (PyDict d)"
      with Cons.prems Nil have "dict_getitem d p = Inr old" by (auto split: sum.splits)
      then show ?thesis using r Nil
        by (simp add: dict_getitem_update dict_update_same)
    next
      fix m xs assume r: "root = PyVal m (PyList xs)"
      with Cons.prems Nil have "list_getitem xs p = Inr old" by (auto split: sum.splits)
      from list_setitem_get[OF this, of val] show ?thesis using r Nil by auto
    qed
  next
    case (Cons q qs)
    from croot show ?thesis
    proof (elim container_cases[THEN disjE] exE)
      fix m d assume r: "root = PyVal m (PyDict d)"
      with Cons.prems Cons obtain w where w: "dict_getitem d p = Inr w"
        and g1: "obj_getter w (butlast ps) = Inr c" and g2: "obj_getter w ps = Inr old"
        by (auto split: sum.splits)
      from Cons.IH[OF _ g1 Cons.prems(3) g2] Cons obtain w' where
        "obj_setter w ps val = Inr w'" "obj_getter w' ps = Inr val" "obj_setter w' ps old = Inr w"
        by auto
      then show ?thesis using r Cons w
        by (simp add: dict_getitem_update dict_update_same)
    next
      fix m xs assume r: "root = PyVal m (PyList xs)"
      with Cons.prems Cons obtain w where w: "list_getitem xs p = Inr w"
        and g1: "obj_getter w (butlast ps) = Inr c" and g2: "obj_getter w ps = Inr old"
        by (auto split: sum.splits)
      from Cons.IH[OF _ g1 Cons.prems(3) g2] Cons obtain w' where
        w': "obj_setter w ps val = Inr w'" "obj_getter w' ps = Inr val" "obj_setter w' ps old = Inr w"
        by auto
      from list_setitem_get[OF w, of w'] obtain ys where
        "list_setitem xs p w' = Inr ys" "list_getitem ys p = Inr w'" "list_setitem ys p w = Inr xs"
        by blast
      then show ?thesis using r Cons w w' by simp
    qed
  qed
qed

lemma setter_prefix_leaf:
  "ps \<noteq> [] \<Longrightarrow> obj_getter root (butlast ps) = Inr v \<Longrightarrow> \<not> is_container v \<Longrightarrow>
   obj_setter root ps val = Inr root"
proof (induction root ps val rule: obj_setter.induct)
  case (5 m d p q ps val)
  then show ?case by (auto simp: dict_getitem_def update_triv split: sum.splits option.splits)
next
  case (6 m xs p q ps val)
  then show ?case
    by (auto simp: list_getitem_def list_setitem_def split: sum.splits)
qed (auto simp: is_container_def)

lemma setter_prefix_error:
  "ps \<noteq> [] \<Longrightarrow> obj_getter root (butlast ps) = Inl e \<Longrightarrow> obj_setter root ps val = Inl e"
  by (induction root ps val rule: obj_setter.induct) (auto split: sum.splits)


subsection \<open>Path resolution\<close>

lemma getter_append:
  "obj_getter root (ps @ qs) =
     (case obj_getter root ps of Inl err \<Rightarrow> Inl err | Inr c \<Rightarrow> obj_getter c qs)"
  by (induction root ps rule: obj_getter.induct) (auto split: sum.splits)

lemma getter_step:
  assumes "k < length ps" and "obj_getter root (take k ps) = Inr c"
  shows "obj_getter root (take (Suc k) ps) = obj_getter c [ps ! k]"
    and "obj_getter root ps =
           (case obj_getter c [ps ! k] of
              Inl err \<Rightarrow> Inl err
            | Inr v \<Rightarrow> obj_getter v (drop (Suc k) ps))"
proof -
  from assms(1) have t: "take (Suc k) ps = take k ps @ [ps ! k]"
    by (rule take_Suc_conv_app_nth)
  show "obj_getter root (take (Suc k) ps) = obj_getter c [ps ! k]"
    unfolding t getter_append using assms(2) by simp
  have "ps = take k ps @ ([ps ! k] @ drop (Suc k) ps)"
    using assms(1) by (simp add: Cons_nth_drop_Suc)
  then have "obj_getter root ps = obj_getter root (take k ps @ ([ps ! k] @ drop (Suc k) ps))"
    by simp
  also have "\<dots> = obj_getter c ([ps ! k] @ drop (Suc k) ps)"
    unfolding getter_append[of root "take k ps"] using assms(2) by simp
  also have "\<dots> = (case obj_getter c [ps ! k] of
              Inl err \<Rightarrow> Inl err
            | Inr v \<Rightarrow> obj_getter v (drop (Suc k) ps))"
    by (rule getter_append)
  finally show "obj_getter root ps =
           (case obj_getter c [ps ! k] of
              Inl err \<Rightarrow> Inl err
            | Inr v \<Rightarrow> obj_getter v (drop (Suc k) ps))" .
qed

lemma getter_reached_leaf:
  assumes "k \<le> length ps" and "obj_getter root (take k ps) = Inr c" and "\<not> is_container c"
  shows "obj_getter root ps = Inr c"
proof -
  have "obj_getter root (take k ps @ drop k ps) = obj_getter c (drop k ps)"
    unfolding getter_append using assms(2) by simp
  with assms(3) show ?thesis by (simp add: obj_getter_leaf)
qed

lemma py_int_error: "py_int p = Inl x \<Longrightarrow> x = ValueError"
  by (auto simp: py_int_def Let_def split: if_splits)

lemma list_index_cases:
  "list_index n i =
     (if - int n \<le> i \<and> i < int n then Inr (nat (if i < 0 then i + int n else i))
      else Inl IndexError)"
  by (auto simp: list_index_def Let_def)

lemma getter_dict_step:
  "obj_getter (PyVal m (PyDict d)) [p] =
     (case map_of d p of None \<Rightarrow> Inl KeyError | Some v \<Rightarrow> Inr v)"
  by (simp add: dict_getitem_def split: option.splits)

lemma getter_list_step:
  "obj_getter (PyVal m (PyList xs)) [p] =
     (case py_int p of
        Inl x \<Rightarrow> Inl ValueError
      | Inr i \<Rightarrow>
          if - int (length xs) \<le> i \<and> i < int (length xs)
          then Inr (xs ! nat (if i < 0 then i + int (length xs) else i))
          else Inl IndexError)"
  by (auto simp: list_getitem_def list_index_cases dest: py_int_error split: sum.splits)

lemma getter_error_origin:
  "obj_getter root ps = Inl err \<Longrightarrow>
     \<exists>k c. k < length ps \<and> obj_getter root (take k ps) = Inr c \<and> is_container c \<and>
           obj_getter c [ps ! k] = Inl err"
proof (induction ps arbitrary: root)
  case Nil
  then show ?case by simp
next
  case (Cons p ps)
  have croot: "is_container root"
  proof (rule ccontr)
    assume "\<not> is_container root"
    then have "obj_getter root (p # ps) = Inr root" by (rule obj_getter_leaf)
    with Cons.prems show False by simp
  qed
  have step: "obj_getter root (p # qs) =
      (case obj_getter root [p] of Inl err \<Rightarrow> Inl err | Inr v \<Rightarrow> obj_getter v qs)" for qs
    using getter_append[of root "[p]" qs] by simp
  show ?case
  proof (cases "obj_getter root [p]")
    case (Inl x)
    with Cons.prems step[of ps] have "x = err" by simp
    with Inl croot have "0 < length (p # ps) \<and> obj_getter root (take 0 (p # ps)) = Inr root \<and>
        is_container root \<and> obj_getter root [(p # ps) ! 0] = Inl err"
      by simp
    then show ?thesis by blast
  next
    case (Inr v)
    with Cons.prems step[of ps] have "obj_getter v ps = Inl err" by simp
    from Cons.IH[OF this] obtain k c where k: "k < length ps"
      and c: "obj_getter v (take k ps) = Inr c" "is_container c"
      and e: "obj_getter c [ps ! k] = Inl err"
      by blast
    have "obj_getter root (take (Suc k) (p # ps)) = Inr c"
      using step[of "take k ps"] Inr c(1) by simp
    with k c(2) e have "Suc k < length (p # ps) \<and>
        obj_getter root (take (Suc k) (p # ps)) = Inr c \<and> is_container c \<and>
        obj_getter c [(p # ps) ! Suc k] = Inl err"
      by simp
    then show ?thesis by blast
  qed
qed

lemma is_container_setter:
  "is_container c \<Longrightarrow> obj_setter c [p] val = Inr c' \<Longrightarrow> is_container c'"
  by (auto simp: is_container_def dest!: container_cases[unfolded is_container_def]
           split: sum.splits)

lemma list_setitem_then_get:
  "list_getitem xs p = Inr w \<Longrightarrow>
     \<exists>ys. list_setitem xs p w' = Inr ys \<and> list_getitem ys p = Inr w'"
  using list_setitem_get[of xs p w w'] by blast

lemma setter_last:
  "ps \<noteq> [] \<Longrightarrow> obj_getter root (butlast ps) = Inr c \<Longrightarrow> is_container c \<Longrightarrow>
     (case obj_setter c [last ps] val of
        Inl err \<Rightarrow> obj_setter root ps val = Inl err
      | Inr c' \<Rightarrow>
          (\<exists>root'. obj_setter root ps val = Inr root' \<and>
                   obj_getter root' (butlast ps) = Inr c'))"
proof (induction ps arbitrary: root)
  case Nil
  then show ?case by simp
next
  case (Cons p ps)
  have croot: "is_container root"
  proof (rule ccontr)
    assume "\<not> is_container root"
    then have "obj_getter root (butlast (p # ps)) = Inr root" by (rule obj_getter_leaf)
    with Cons.prems(2) have "c = root" by simp
    with Cons.prems(3) \<open>\<not> is_container root\<close> show False by simp
  qed
  show ?case
  proof (cases ps)
    case Nil
    with Cons.prems have "c = root" by simp
    with Nil show ?thesis by (simp split: sum.splits)
  next
    case (Cons q qs)
    then have ps: "ps \<noteq> []" "last (p # ps) = last ps" by simp_all
    from croot show ?thesis
    proof (elim container_cases[THEN disjE] exE)
      fix m d assume r: "root = PyVal m (PyDict d)"
      with Cons.prems Cons obtain w where w: "dict_getitem d p = Inr w"
        and g1: "obj_getter w (butlast ps) = Inr c"
        by (auto split: sum.splits)
      show ?thesis
      proof (cases "obj_setter c [last ps] val")
        case (Inl x)
        with Cons.IH[OF ps(1) g1 Cons.prems(3)] have "obj_setter w ps val = Inl x" by simp
        with Inl r Cons w ps(2) show ?thesis by simp
      next
        case (Inr c')
        with Cons.IH[OF ps(1) g1 Cons.prems(3)] obtain w' where
          "obj_setter w ps val = Inr w'" "obj_getter w' (butlast ps) = Inr c'"
          by auto
        with Inr r Cons w ps(2) show ?thesis by (simp add: dict_getitem_update)
      qed
    next
      fix m xs assume r: "root = PyVal m (PyList xs)"
      with Cons.prems Cons obtain w where w: "list_getitem xs p = Inr w"
        and g1: "obj_getter w (butlast ps) = Inr c"
        by (auto split: sum.splits)
      show ?thesis
      proof (cases "obj_setter c [last ps] val")
        case (Inl x)
        with Cons.IH[OF ps(1) g1 Cons.prems(3)] have "obj_setter w ps val = Inl x" by simp
        with Inl r Cons w ps(2) show ?thesis by simp
      next
        case (Inr c')
        with Cons.IH[OF ps(1) g1 Cons.prems(3)] obtain w' where
          w': "obj_setter w ps val = Inr w'" "obj_getter w' (butlast ps) = Inr c'"
          by auto
        from list_setitem_then_get[OF w, of w'] obtain ys where
          "list_setitem xs p w' = Inr ys" "list_getitem ys p = Inr w'"
          by blast
        with Inr r Cons w w' ps(2) show ?thesis by simp
      qed
    qed
  qed
qed

lemma setter_list_step:
  "obj_setter (PyVal m (PyList xs)) [p] val =
     (case py_int p of
        Inl x \<Rightarrow> Inl ValueError
      | Inr i \<Rightarrow>
          if - int (length xs) \<le> i \<and> i < int (length xs)
          then Inr (PyVal m (PyList (xs[nat (if i < 0 then i + int (length xs) else i) := val])))
          else Inl IndexError)"
  by (auto simp: list_setitem_def list_index_cases dest: py_int_error split: sum.splits)

lemma getter_last:
  "ps \<noteq> [] \<Longrightarrow> obj_getter root (butlast ps) = Inr c \<Longrightarrow>
     obj_getter root ps = obj_getter c [last ps]"
  using getter_append[of root "butlast ps" "[last ps]"] by simp


lemma path_example_item: "path example_item = [''xs'', ''1'']"
  by (simp add: example_item_def example_root_def example_array_def name_def cs_Renamed_new_def)

lemma py_int_1: "py_int ''1'' = Inr 1"
  by (simp add: py_int_def strip_def is_space_def is_digit_def digits_value_def digit_value_def
        int_max_str_digits_def)

lemma py_int_a: "py_int ''a'' = Inl ValueError"
  by (simp add: py_int_def strip_def is_space_def is_digit_def)

lemma path_example_field_a: "path example_field_a = [''a'']"
  by (simp add: example_field_a_def example_root_def name_def cs_Renamed_new_def)

text \<open>
  C1, as the code has it.  Let \<open>ps\<close> be the path of the entry, and call the value that the
  getter returns for the first \<open>k\<close> segments the value reached after \<open>k\<close> segments.

  Reading.  At a dictionary, a segment that is not a key raises \<^verbatim>\<open>KeyError\<close>, and a segment
  that is a key leads to its value.  At a list, a segment that \<^verbatim>\<open>int\<close> rejects raises
  \<^verbatim>\<open>ValueError\<close>, one that parses to an index outside the list raises \<^verbatim>\<open>IndexError\<close>,
  and one inside the list leads to that element, a negative index counting from the end.
  Once a value is reached that is neither a dictionary nor a list, the remaining segments
  are skipped and the getter returns that value.  Every exception of the getter arises in
  one of these three ways and reaches the caller, and the read of the specification fails
  there too.  The getter returns a value exactly when the path resolves to it segment by
  segment, or resolves up to it and it is not a container.

  Writing.  With an empty path the setter raises \<^verbatim>\<open>IndexError\<close> when the root object is a
  container and does nothing otherwise.  With a non-empty path it raises what the read of
  all but the last segment raises; when that read ends at a value that is not a container
  it assigns nothing and raises nothing; at a dictionary it sets the last segment as key,
  adding the key when it is absent, and raises nothing; at a list it raises
  \<^verbatim>\<open>ValueError\<close> or \<^verbatim>\<open>IndexError\<close> as a read does, or replaces the element.  After an
  assignment the entry reads as the new value, and where the entry could be read before,
  writing the old value back restores the root object.
\<close>

theorem obj_resolution:
  assumes "ps = path e"
  shows
   "(k < length ps \<and> obj_getter root (take k ps) = Inr (PyVal m (PyDict d)) \<longrightarrow>
       (case map_of d (ps ! k) of
          None \<Rightarrow> obj root e = Inl KeyError
        | Some v \<Rightarrow> obj_getter root (take (Suc k) ps) = Inr v)) \<and>
    (k < length ps \<and> obj_getter root (take k ps) = Inr (PyVal m (PyList xs)) \<longrightarrow>
       (case py_int (ps ! k) of
          Inl x \<Rightarrow> obj root e = Inl ValueError
        | Inr i \<Rightarrow>
            if - int (length xs) \<le> i \<and> i < int (length xs)
            then obj_getter root (take (Suc k) ps) =
                   Inr (xs ! nat (if i < 0 then i + int (length xs) else i))
            else obj root e = Inl IndexError)) \<and>
    (k \<le> length ps \<and> obj_getter root (take k ps) = Inr c \<and> \<not> is_container c \<longrightarrow>
       obj root e = Inr c) \<and>
    (obj root e = Inl err \<longrightarrow>
       read_spec root ps = Inl AddressingError \<and>
       (\<exists>j<length ps.
          (\<exists>m' d'. obj_getter root (take j ps) = Inr (PyVal m' (PyDict d')) \<and>
                    map_of d' (ps ! j) = None \<and> err = KeyError) \<or>
          (\<exists>m' xs'. obj_getter root (take j ps) = Inr (PyVal m' (PyList xs')) \<and>
                    (case py_int (ps ! j) of
                       Inl x \<Rightarrow> err = ValueError
                     | Inr i \<Rightarrow> \<not> (- int (length xs') \<le> i \<and> i < int (length xs')) \<and>
                                err = IndexError)))) \<and>
    ((obj root e = Inr v) =
       (read_spec root ps = Inr v \<or>
        (\<not> is_container v \<and> (\<exists>j<length ps. read_spec root (take j ps) = Inr v)))) \<and>
    (ps = [] \<longrightarrow>
       obj_set root e val = (if is_container root then Inl IndexError else Inr root)) \<and>
    (ps \<noteq> [] \<and> obj_getter root (butlast ps) = Inl err \<longrightarrow> obj_set root e val = Inl err) \<and>
    (ps \<noteq> [] \<and> obj_getter root (butlast ps) = Inr c \<and> \<not> is_container c \<longrightarrow>
       obj_set root e val = Inr root) \<and>
    (ps \<noteq> [] \<and> obj_getter root (butlast ps) = Inr (PyVal m (PyDict d)) \<longrightarrow>
       (\<exists>root'. obj_set root e val = Inr root' \<and>
                obj_getter root' (butlast ps) =
                  Inr (PyVal m (PyDict (AList.update (last ps) val d))) \<and>
                obj root' e = Inr val)) \<and>
    (ps \<noteq> [] \<and> obj_getter root (butlast ps) = Inr (PyVal m (PyList xs)) \<longrightarrow>
       (case py_int (last ps) of
          Inl x \<Rightarrow> obj_set root e val = Inl ValueError
        | Inr i \<Rightarrow>
            if - int (length xs) \<le> i \<and> i < int (length xs)
            then (\<exists>root'. obj_set root e val = Inr root' \<and>
                    obj_getter root' (butlast ps) =
                      Inr (PyVal m (PyList
                             (xs[nat (if i < 0 then i + int (length xs) else i) := val]))) \<and>
                    obj root' e = Inr val)
            else obj_set root e val = Inl IndexError)) \<and>
    (ps \<noteq> [] \<and> obj_getter root (butlast ps) = Inr c \<and> is_container c \<and>
     obj root e = Inr old \<and> obj_set root e val = Inr new_root \<longrightarrow>
       obj_set new_root e old = Inr root)"
proof -
  have o: "obj r e = obj_getter r ps" "obj_set r e w = obj_setter r ps w" for r w
    by (simp_all add: obj_def obj_set_def assms)
  have c1: "k < length ps \<and> obj_getter root (take k ps) = Inr (PyVal m (PyDict d)) \<longrightarrow>
       (case map_of d (ps ! k) of
          None \<Rightarrow> obj root e = Inl KeyError
        | Some v \<Rightarrow> obj_getter root (take (Suc k) ps) = Inr v)"
  proof
    assume "k < length ps \<and> obj_getter root (take k ps) = Inr (PyVal m (PyDict d))"
    then have k: "k < length ps" and r: "obj_getter root (take k ps) = Inr (PyVal m (PyDict d))"
      by simp_all
    from getter_step[OF k r, unfolded getter_dict_step] show "case map_of d (ps ! k) of
          None \<Rightarrow> obj root e = Inl KeyError
        | Some v \<Rightarrow> obj_getter root (take (Suc k) ps) = Inr v"
      by (simp add: o split: option.splits)
  qed
  have c2: "k < length ps \<and> obj_getter root (take k ps) = Inr (PyVal m (PyList xs)) \<longrightarrow>
       (case py_int (ps ! k) of
          Inl x \<Rightarrow> obj root e = Inl ValueError
        | Inr i \<Rightarrow>
            if - int (length xs) \<le> i \<and> i < int (length xs)
            then obj_getter root (take (Suc k) ps) =
                   Inr (xs ! nat (if i < 0 then i + int (length xs) else i))
            else obj root e = Inl IndexError)"
  proof
    assume "k < length ps \<and> obj_getter root (take k ps) = Inr (PyVal m (PyList xs))"
    then have k: "k < length ps" and r: "obj_getter root (take k ps) = Inr (PyVal m (PyList xs))"
      by simp_all
    from getter_step[OF k r, unfolded getter_list_step] show "case py_int (ps ! k) of
          Inl x \<Rightarrow> obj root e = Inl ValueError
        | Inr i \<Rightarrow>
            if - int (length xs) \<le> i \<and> i < int (length xs)
            then obj_getter root (take (Suc k) ps) =
                   Inr (xs ! nat (if i < 0 then i + int (length xs) else i))
            else obj root e = Inl IndexError"
      by (simp add: o split: sum.splits)
  qed
  have c3: "k \<le> length ps \<and> obj_getter root (take k ps) = Inr c \<and> \<not> is_container c \<longrightarrow>
       obj root e = Inr c"
    by (auto simp: o intro: getter_reached_leaf)
  have c4: "obj root e = Inl err \<longrightarrow>
       read_spec root ps = Inl AddressingError \<and>
       (\<exists>j<length ps.
          (\<exists>m' d'. obj_getter root (take j ps) = Inr (PyVal m' (PyDict d')) \<and>
                    map_of d' (ps ! j) = None \<and> err = KeyError) \<or>
          (\<exists>m' xs'. obj_getter root (take j ps) = Inr (PyVal m' (PyList xs')) \<and>
                    (case py_int (ps ! j) of
                       Inl x \<Rightarrow> err = ValueError
                     | Inr i \<Rightarrow> \<not> (- int (length xs') \<le> i \<and> i < int (length xs')) \<and>
                                err = IndexError)))"
  proof
    assume "obj root e = Inl err"
    then have g: "obj_getter root ps = Inl err" by (simp add: o)
    then have spec: "read_spec root ps = Inl AddressingError" by (rule getter_error_spec)
    from getter_error_origin[OF g] obtain j c' where j: "j < length ps"
      and r: "obj_getter root (take j ps) = Inr c'" and cc: "is_container c'"
      and e: "obj_getter c' [ps ! j] = Inl err"
      by blast
    from cc have "(\<exists>m' d'. obj_getter root (take j ps) = Inr (PyVal m' (PyDict d')) \<and>
                    map_of d' (ps ! j) = None \<and> err = KeyError) \<or>
          (\<exists>m' xs'. obj_getter root (take j ps) = Inr (PyVal m' (PyList xs')) \<and>
                    (case py_int (ps ! j) of
                       Inl x \<Rightarrow> err = ValueError
                     | Inr i \<Rightarrow> \<not> (- int (length xs') \<le> i \<and> i < int (length xs')) \<and>
                                err = IndexError))"
    proof (elim container_cases[THEN disjE] exE)
      fix m' d' assume eq: "c' = PyVal m' (PyDict d')"
      from e have "(case map_of d' (ps ! j) of None \<Rightarrow> Inl KeyError | Some v \<Rightarrow> Inr v) = Inl err"
        unfolding eq getter_dict_step .
      with r eq show ?thesis
        by (auto split: option.splits)
    next
      fix m' xs' assume eq: "c' = PyVal m' (PyList xs')"
      from e have "(case py_int (ps ! j) of
        Inl x \<Rightarrow> Inl ValueError
      | Inr i \<Rightarrow>
          if - int (length xs') \<le> i \<and> i < int (length xs')
          then Inr (xs' ! nat (if i < 0 then i + int (length xs') else i))
          else Inl IndexError) = Inl err"
        unfolding eq getter_list_step .
      with r eq show ?thesis
        by (auto split: sum.splits if_splits)
    qed
    with j spec show "read_spec root ps = Inl AddressingError \<and>
       (\<exists>j<length ps.
          (\<exists>m' d'. obj_getter root (take j ps) = Inr (PyVal m' (PyDict d')) \<and>
                    map_of d' (ps ! j) = None \<and> err = KeyError) \<or>
          (\<exists>m' xs'. obj_getter root (take j ps) = Inr (PyVal m' (PyList xs')) \<and>
                    (case py_int (ps ! j) of
                       Inl x \<Rightarrow> err = ValueError
                     | Inr i \<Rightarrow> \<not> (- int (length xs') \<le> i \<and> i < int (length xs')) \<and>
                                err = IndexError)))"
      by blast
  qed
  have c5: "(obj root e = Inr v) =
       (read_spec root ps = Inr v \<or>
        (\<not> is_container v \<and> (\<exists>j<length ps. read_spec root (take j ps) = Inr v)))"
    unfolding o by (blast intro: read_spec_imp_getter getter_prefix_leaf dest: getter_cases)
  have c6: "ps = [] \<longrightarrow>
       obj_set root e val = (if is_container root then Inl IndexError else Inr root)"
    by (simp add: o)
  have c7: "ps \<noteq> [] \<and> obj_getter root (butlast ps) = Inl err \<longrightarrow> obj_set root e val = Inl err"
    unfolding o by (blast intro: setter_prefix_error)
  have c8: "ps \<noteq> [] \<and> obj_getter root (butlast ps) = Inr c \<and> \<not> is_container c \<longrightarrow>
       obj_set root e val = Inr root"
    unfolding o by (blast intro: setter_prefix_leaf)
  have c9: "ps \<noteq> [] \<and> obj_getter root (butlast ps) = Inr (PyVal m (PyDict d)) \<longrightarrow>
       (\<exists>root'. obj_set root e val = Inr root' \<and>
                obj_getter root' (butlast ps) =
                  Inr (PyVal m (PyDict (AList.update (last ps) val d))) \<and>
                obj root' e = Inr val)"
  proof
    assume "ps \<noteq> [] \<and> obj_getter root (butlast ps) = Inr (PyVal m (PyDict d))"
    then have ne: "ps \<noteq> []" and r: "obj_getter root (butlast ps) = Inr (PyVal m (PyDict d))"
      by simp_all
    have "is_container (PyVal m (PyDict d))" by (simp add: is_container_def)
    from setter_last[OF ne r this, of val] obtain root' where
      s: "obj_setter root ps val = Inr root'"
      and g: "obj_getter root' (butlast ps) =
                Inr (PyVal m (PyDict (AList.update (last ps) val d)))"
      by auto
    from getter_last[OF ne g] have "obj_getter root' ps = Inr val"
      by (simp add: dict_getitem_update)
    with s g show "\<exists>root'. obj_set root e val = Inr root' \<and>
                obj_getter root' (butlast ps) =
                  Inr (PyVal m (PyDict (AList.update (last ps) val d))) \<and>
                obj root' e = Inr val"
      by (simp add: o)
  qed
  have c10: "ps \<noteq> [] \<and> obj_getter root (butlast ps) = Inr (PyVal m (PyList xs)) \<longrightarrow>
       (case py_int (last ps) of
          Inl x \<Rightarrow> obj_set root e val = Inl ValueError
        | Inr i \<Rightarrow>
            if - int (length xs) \<le> i \<and> i < int (length xs)
            then (\<exists>root'. obj_set root e val = Inr root' \<and>
                    obj_getter root' (butlast ps) =
                      Inr (PyVal m (PyList
                             (xs[nat (if i < 0 then i + int (length xs) else i) := val]))) \<and>
                    obj root' e = Inr val)
            else obj_set root e val = Inl IndexError)"
  proof
    assume "ps \<noteq> [] \<and> obj_getter root (butlast ps) = Inr (PyVal m (PyList xs))"
    then have ne: "ps \<noteq> []" and r: "obj_getter root (butlast ps) = Inr (PyVal m (PyList xs))"
      by simp_all
    have cc: "is_container (PyVal m (PyList xs))" by (simp add: is_container_def)
    note sl = setter_last[OF ne r cc, of val, unfolded setter_list_step]
    show "case py_int (last ps) of
          Inl x \<Rightarrow> obj_set root e val = Inl ValueError
        | Inr i \<Rightarrow>
            if - int (length xs) \<le> i \<and> i < int (length xs)
            then (\<exists>root'. obj_set root e val = Inr root' \<and>
                    obj_getter root' (butlast ps) =
                      Inr (PyVal m (PyList
                             (xs[nat (if i < 0 then i + int (length xs) else i) := val]))) \<and>
                    obj root' e = Inr val)
            else obj_set root e val = Inl IndexError"
    proof (cases "py_int (last ps)")
      case (Inl x)
      with sl show ?thesis by (simp add: o)
    next
      case (Inr i)
      show ?thesis
      proof (cases "- int (length xs) \<le> i \<and> i < int (length xs)")
        case False
        with Inr sl show ?thesis by (simp add: o)
      next
        case True
        define idx where "idx = nat (if i < 0 then i + int (length xs) else i)"
        from True have lt: "idx < length xs" by (auto simp: idx_def)
        from Inr True sl obtain root' where
          s: "obj_setter root ps val = Inr root'"
          and g: "obj_getter root' (butlast ps) = Inr (PyVal m (PyList (xs[idx := val])))"
          by (auto simp: idx_def)
        have ii: "nat (if i < 0 then i + int (length xs) else i) = idx"
          by (simp add: idx_def)
        have "obj_getter (PyVal m (PyList (xs[idx := val]))) [last ps] = Inr val"
          unfolding getter_list_step using Inr True lt ii by (auto split: if_splits)
        with getter_last[OF ne g] have "obj_getter root' ps = Inr val"
          by simp
        with s g Inr True show ?thesis by (simp add: o idx_def)
      qed
    qed
  qed
  have c11: "ps \<noteq> [] \<and> obj_getter root (butlast ps) = Inr c \<and> is_container c \<and>
     obj root e = Inr old \<and> obj_set root e val = Inr new_root \<longrightarrow>
       obj_set new_root e old = Inr root"
  proof
    assume a: "ps \<noteq> [] \<and> obj_getter root (butlast ps) = Inr c \<and> is_container c \<and>
     obj root e = Inr old \<and> obj_set root e val = Inr new_root"
    then have "\<exists>root'. obj_setter root ps val = Inr root' \<and> obj_getter root' ps = Inr val \<and>
           obj_setter root' ps old = Inr root"
      by (intro set_get_undo[of ps root c old val]) (simp_all add: o)
    with a show "obj_set new_root e old = Inr root" by (auto simp: o)
  qed
  from c1 c2 c3 c4 c5 c6 c7 c8 c9 c10 c11 show ?thesis by (intro conjI)
qed


theorem obj_resolution_witness:
  "obj example_obj example_field_a = Inr (PyVal None (PyInt 5)) \<and>
   obj (PyVal None (PyDict [])) example_field_a = Inl KeyError \<and>
   obj example_obj example_item = Inr (PyVal None (PyInt 20)) \<and>
   obj (PyVal None (PyList [])) example_field_a = Inl ValueError \<and>
   obj example_short_obj example_item = Inl IndexError \<and>
   obj no_obj example_field_a = Inr no_obj \<and>
   obj_set (PyVal None (PyDict [])) example_field_a (PyVal None (PyInt 7)) =
     Inr (PyVal None (PyDict [(''a'', PyVal None (PyInt 7))])) \<and>
   obj_set example_obj example_item (PyVal None (PyInt 7)) =
     Inr (PyVal None (PyDict
       [(''a'', PyVal None (PyInt 5)),
        (''xs'', PyVal None (PyList [PyVal None (PyInt 10), PyVal None (PyInt 7)]))])) \<and>
   obj_set example_short_obj example_item (PyVal None (PyInt 7)) = Inl IndexError \<and>
   obj_set no_obj example_field_a (PyVal None (PyInt 7)) = Inr no_obj"
  using obj_resolution [where ps = "[''a'']" and e = example_field_a and k = 0
            and root = example_obj and m = None
            and d = "[(''a'', PyVal None (PyInt 5)),
                      (''xs'', PyVal None (PyList [PyVal None (PyInt 10), PyVal None (PyInt 20)]))]"
            and xs = "[]" and c = example_obj and err = KeyError
            and v = "PyVal None (PyInt 5)" and val = "PyVal None (PyInt 7)"
            and old = "PyVal None (PyInt 5)" and new_root = example_obj]
        obj_resolution [where ps = "[''a'']" and e = example_field_a and k = 0
            and root = "PyVal None (PyDict [])" and m = None and d = "[]"
            and xs = "[]" and c = no_obj and err = KeyError
            and v = no_obj and val = "PyVal None (PyInt 7)"
            and old = no_obj and new_root = no_obj]
        obj_resolution [where ps = "[''xs'', ''1'']" and e = example_item and k = 1
            and root = example_obj and m = None and d = "[]"
            and xs = "[PyVal None (PyInt 10), PyVal None (PyInt 20)]"
            and c = no_obj and err = KeyError
            and v = "PyVal None (PyInt 20)" and val = "PyVal None (PyInt 7)"
            and old = "PyVal None (PyInt 20)" and new_root = no_obj]
        obj_resolution [where ps = "[''a'']" and e = example_field_a and k = 0
            and root = "PyVal None (PyList [])" and m = None and d = "[]"
            and xs = "[]" and c = no_obj and err = ValueError
            and v = no_obj and val = "PyVal None (PyInt 7)"
            and old = no_obj and new_root = no_obj]
        obj_resolution [where ps = "[''xs'', ''1'']" and e = example_item and k = 1
            and root = example_short_obj and m = None and d = "[]"
            and xs = "[PyVal None (PyInt 10)]"
            and c = no_obj and err = IndexError
            and v = no_obj and val = "PyVal None (PyInt 7)"
            and old = no_obj and new_root = no_obj]
        obj_resolution [where ps = "[''a'']" and e = example_field_a and k = 0
            and root = no_obj and m = None and d = "[]"
            and xs = "[]" and c = no_obj and err = KeyError
            and v = no_obj and val = "PyVal None (PyInt 7)"
            and old = no_obj and new_root = no_obj]
  by (simp add: path_example_field_a path_example_item example_obj_def example_short_obj_def
        no_obj_def obj_def obj_set_def dict_getitem_def list_getitem_def list_setitem_def
        list_index_def py_int_1 py_int_a is_container_def)

text \<open>
  The claim as written has every path that runs past a leaf fail.  With no object loaded
  the path \<open>[a]\<close> runs past the leaf \<^verbatim>\<open>None\<close>: the read of the specification fails,
  the getter returns \<^verbatim>\<open>None\<close>, and the setter returns without writing.
\<close>

theorem leaf_segment_skipped_counterexample:
  "path example_field_a = [''a''] \<and>
   obj no_obj example_field_a = Inr no_obj \<and>
   read_spec no_obj (path example_field_a) = Inl AddressingError \<and>
   obj_set no_obj example_field_a (PyVal None (PyInt 7)) = Inr no_obj"
  by (simp add: path_example_field_a obj_def obj_set_def no_obj_def)

subsection \<open>Editing a value\<close>

text \<open>
  C9: for every column other than the value column, \<^verbatim>\<open>set_value\<close> raises the
  \<^verbatim>\<open>ValueError\<close> and leaves the model as it was: the root object, the command history and
  the record of \<^verbatim>\<open>on_value_changed\<close> calls are unchanged.
\<close>

theorem set_value_invalid_column:
  "column \<noteq> 2 \<Longrightarrow> set_value m new e column = Raised ValueError m"
  by (simp add: set_value_def)

theorem set_value_invalid_column_witness:
  "set_value (example_model example_obj) (PyVal None (PyInt 7)) example_field_a 0 =
     Raised ValueError (example_model example_obj)"
  using set_value_invalid_column [of 0 "example_model example_obj" "PyVal None (PyInt 7)"
          example_field_a]
  by simp

text \<open>
  C10: for an entry whose path is empty, \<^verbatim>\<open>set_value\<close> on the value column raises
  \<^verbatim>\<open>IndexError\<close> when the command's label is built, before anything is submitted; the
  model is left as it was.
\<close>

theorem set_value_empty_path:
  "path e = [] \<Longrightarrow> set_value m new e 2 = Raised IndexError m"
  by (simp add: set_value_def obj_def Cmd_init_def)

theorem set_value_empty_path_witness:
  "path example_named_root = [] \<and>
   set_value (example_model (PyVal None (PyInt 5))) (PyVal None (PyInt 7)) example_named_root 2 =
     Raised IndexError (example_model (PyVal None (PyInt 5)))"
  using set_value_empty_path [of example_named_root "example_model (PyVal None (PyInt 5))"
          "PyVal None (PyInt 7)"]
  by (simp add: example_named_root_def)

lemma submit_Returned:
  "obj_set (root_obj m) (cmd_entry cmd) (new_value cmd) = Inr root' \<Longrightarrow>
   submit m cmd =
     Returned (m\<lparr>root_obj := root',
                 value_changed := value_changed m @ [cmd_entry cmd],
                 commands := drop (Suc (length (commands m)) - max_commands)
                               (commands m @ [cmd\<lparr>obj_backup := Some (current_value cmd)\<rparr>])\<rparr>)"
  by (simp add: submit_def Cmd_do_def on_value_changed_def Let_def)

lemma last_drop_history: "last (drop (Suc (length cs) - max_commands) (cs @ [c])) = c"
proof -
  have "Suc (length cs) - max_commands < length (cs @ [c])"
    by (simp add: max_commands_def)
  then have "last (drop (Suc (length cs) - max_commands) (cs @ [c])) = last (cs @ [c])"
    by (rule last_drop)
  then show ?thesis by simp
qed

lemma drop_history_nonempty: "drop (Suc (length cs) - max_commands) (cs @ [c]) \<noteq> []"
proof -
  have "Suc (length cs) - max_commands < length (cs @ [c])"
    by (simp add: max_commands_def)
  then show ?thesis by (simp del: drop_append)
qed

text \<open>
  C7, as the code has it.  For an entry whose path is not empty, resolves in the root
  object, and ends in a slot of a dictionary or list: \<^verbatim>\<open>set_value\<close> on the value column
  returns, the submitted command is the last of the history, a read of the entry observes
  the new value (carrying the metadata of the old one), and \<^verbatim>\<open>on_value_changed\<close> has been
  called once for the entry; the command's \<^verbatim>\<open>undo\<close> then returns, a read observes the old
  value, the root object is what it was, and \<^verbatim>\<open>on_value_changed\<close> has been called twice.
\<close>

theorem set_value_undo:
  assumes "path e \<noteq> []"
    and "obj_getter (root_obj m) (butlast (path e)) = Inr c"
    and "is_container c"
    and "obj (root_obj m) e = Inr old"
  shows "\<exists>m' cmd m''.
           set_value m new e 2 = Returned m' \<and>
           commands m' \<noteq> [] \<and> cmd = last (commands m') \<and> cmd_entry cmd = e \<and>
           obj (root_obj m') e = Inr (link_metadata old new) \<and>
           value_changed m' = value_changed m @ [e] \<and>
           Cmd_undo m' cmd = Returned m'' \<and>
           obj (root_obj m'') e = Inr old \<and>
           root_obj m'' = root_obj m \<and>
           value_changed m'' = value_changed m @ [e, e]"
proof -
  from assms(4) have g: "obj_getter (root_obj m) (path e) = Inr old" by (simp add: obj_def)
  from set_get_undo[OF assms(1) assms(2) assms(3) g, of "link_metadata old new"]
  obtain root' where s1: "obj_setter (root_obj m) (path e) (link_metadata old new) = Inr root'"
    and g1: "obj_getter root' (path e) = Inr (link_metadata old new)"
    and s2: "obj_setter root' (path e) old = Inr (root_obj m)"
    by blast
  define cmd0 where "cmd0 = \<lparr>cmd_entry = e, current_value = old,
      new_value = link_metadata old new, obj_backup = None,
      cmd_name = ''Value '' @ [CHR 0x27] @ last (path e) @ [CHR 0x27] @ '' changed''\<rparr>"
  define cmd where "cmd = cmd0\<lparr>obj_backup := Some (current_value cmd0)\<rparr>"
  define m' where "m' = m\<lparr>root_obj := root',
      value_changed := value_changed m @ [cmd_entry cmd0],
      commands := drop (Suc (length (commands m)) - max_commands) (commands m @ [cmd])\<rparr>"
  define m'' where "m'' = on_value_changed (m'\<lparr>root_obj := root_obj m\<rparr>) e"
  have init: "Cmd_init e old (link_metadata old new) = Inr cmd0"
    using assms(1) by (simp add: Cmd_init_def cmd0_def)
  have "obj_set (root_obj m) (cmd_entry cmd0) (new_value cmd0) = Inr root'"
    using s1 by (simp add: obj_set_def cmd0_def)
  from submit_Returned[OF this] have sub: "submit m cmd0 = Returned m'"
    by (simp add: m'_def cmd_def)
  have sv: "set_value m new e 2 = Returned m'"
    using assms(4) init sub by (simp add: set_value_def)
  have cs: "commands m' = drop (Suc (length (commands m)) - max_commands) (commands m @ [cmd])"
    by (simp add: m'_def)
  have last: "last (commands m') = cmd" "commands m' \<noteq> []"
    unfolding cs by (rule last_drop_history, rule drop_history_nonempty)
  have ent: "cmd_entry cmd = e" by (simp add: cmd_def cmd0_def)
  have rd: "obj (root_obj m') e = Inr (link_metadata old new)"
    using g1 by (simp add: obj_def m'_def)
  have vc: "value_changed m' = value_changed m @ [e]" by (simp add: m'_def cmd0_def)
  have undo: "Cmd_undo m' cmd = Returned m''"
    using s2 by (simp add: Cmd_undo_def cmd_def cmd0_def obj_set_def m'_def m''_def)
  have rd2: "obj (root_obj m'') e = Inr old" "root_obj m'' = root_obj m"
    using g by (simp_all add: m''_def on_value_changed_def obj_def)
  have vc2: "value_changed m'' = value_changed m @ [e, e]"
    by (simp add: m''_def on_value_changed_def m'_def cmd0_def)
  show ?thesis
    using sv last ent rd vc undo rd2 vc2 by blast
qed


theorem set_value_undo_witness:
  "path example_field_a \<noteq> [] \<and> is_container example_obj \<and>
   obj (root_obj (example_model example_obj)) example_field_a = Inr (PyVal None (PyInt 5)) \<and>
   (\<exists>m' cmd m''.
      set_value (example_model example_obj) (PyVal None (PyInt 7)) example_field_a 2 = Returned m' \<and>
      commands m' \<noteq> [] \<and> cmd = last (commands m') \<and> cmd_entry cmd = example_field_a \<and>
      obj (root_obj m') example_field_a = Inr (PyVal None (PyInt 7)) \<and>
      value_changed m' = [example_field_a] \<and>
      Cmd_undo m' cmd = Returned m'' \<and>
      obj (root_obj m'') example_field_a = Inr (PyVal None (PyInt 5)) \<and>
      root_obj m'' = example_obj \<and>
      value_changed m'' = [example_field_a, example_field_a])"
  using set_value_undo [of example_field_a "example_model example_obj" example_obj
          "PyVal None (PyInt 5)" "PyVal None (PyInt 7)"]
  by (simp add: path_example_field_a obj_def example_model_def example_obj_def
        dict_getitem_def is_container_def link_metadata_def
        get_gui_metadata_def)

text \<open>
  The claim as written covers every leaf entry.  The root entry of \<^verbatim>\<open>"a" / Int8ub\<close> is a
  leaf with the empty path: \<^verbatim>\<open>set_value\<close> raises \<^verbatim>\<open>IndexError\<close>, no command is submitted
  and \<^verbatim>\<open>on_value_changed\<close> is not called.  With no object loaded, \<^verbatim>\<open>set_value\<close> on the
  field \<open>a\<close> returns, and the read that follows observes \<^verbatim>\<open>None\<close>, not the new value.
\<close>

theorem set_value_unresolved_counterexample:
  "subentries (PyVal None (PyInt 5)) example_named_root = Inr None \<and>
   raised (set_value (example_model (PyVal None (PyInt 5))) (PyVal None (PyInt 7))
             example_named_root 2) = Some IndexError \<and>
   commands (model_after (set_value (example_model (PyVal None (PyInt 5))) (PyVal None (PyInt 7))
             example_named_root 2)) = [] \<and>
   value_changed (model_after (set_value (example_model (PyVal None (PyInt 5)))
             (PyVal None (PyInt 7)) example_named_root 2)) = [] \<and>
   raised (set_value (example_model no_obj) (PyVal None (PyInt 7)) example_field_a 2) = None \<and>
   obj (root_obj (model_after (set_value (example_model no_obj) (PyVal None (PyInt 7))
             example_field_a 2))) example_field_a = Inr no_obj"
proof -
  have leaf: "subentries (PyVal None (PyInt 5)) example_named_root = Inr None"
  proof -
    have s: "subentry example_named_root =
               Inr (Some (Entry EntryFormatField (Some example_named_root) example_leaf False))"
      by (simp add: subentry_def example_named_root_def cs_Renamed_new_def example_leaf_def
            create_entry_from_construct_def create_entry_with_def entry_mapping_construct_def
            entry_init_def is_subconstruct_class_def)
    have "subentries (PyVal None (PyInt 5))
            (Entry EntryFormatField (Some example_named_root) example_leaf False) = Inr None"
      by (simp add: subentries_delegate is_subconstruct_class_def)
    moreover have "subentries (PyVal None (PyInt 5)) example_named_root =
        (if is_subconstruct_class (eclass example_named_root)
         then (case subentry example_named_root of
                 Inl err \<Rightarrow> Inl err
               | Inr None \<Rightarrow> Inl AttributeError
               | Inr (Some s) \<Rightarrow> subentries (PyVal None (PyInt 5)) s)
         else Inr None)"
      by (rule subentries_delegate) (simp_all add: example_named_root_def)
    ultimately show ?thesis
      by (simp add: s)

  qed
  have root: "set_value (example_model (PyVal None (PyInt 5))) (PyVal None (PyInt 7))
                example_named_root 2 = Raised IndexError (example_model (PyVal None (PyInt 5)))"
    by (simp add: set_value_def obj_def Cmd_init_def example_named_root_def)
  have none: "set_value (example_model no_obj) (PyVal None (PyInt 7)) example_field_a 2 =
                Returned ((example_model no_obj)\<lparr>value_changed := [example_field_a],
                  commands := [\<lparr>cmd_entry = example_field_a, current_value = no_obj,
                     new_value = PyVal None (PyInt 7), obj_backup = Some no_obj,
                     cmd_name = ''Value '' @ [CHR 0x27] @ ''a'' @ [CHR 0x27] @ '' changed''\<rparr>]\<rparr>)"
    by (simp add: set_value_def obj_def obj_set_def path_example_field_a Cmd_init_def
          example_model_def no_obj_def link_metadata_def get_gui_metadata_def submit_def
          Cmd_do_def on_value_changed_def max_commands_def)
  show ?thesis
    unfolding root none
    by (simp add: leaf example_model_def obj_def path_example_field_a no_obj_def)
qed

subsection \<open>Rename wrappers\<close>

lemma path_excluded:
  "eclass e = EntryRenamed \<Longrightarrow> exclude_from_path e \<Longrightarrow>
     path e = (case parent e of None \<Rightarrow> [] | Some p \<Rightarrow> path p)"
  by (cases e) simp

lemma path_named_child:
  "parent e = Some p \<Longrightarrow> \<not> exclude_from_path e \<Longrightarrow> name e \<noteq> [] \<Longrightarrow>
     path e = path p @ [name e]"
  by (cases e) simp

text \<open>
  C8: a rename wrapper entry marked exclude-from-path has the path of its parent (the empty
  path when it has none), in particular one constructed with the mark; the constructor
  sets the mark by itself when the node has the name of the node it wraps; and for a
  rename named \<open>n\<close> wrapped in a rename of the same name, the outer entry has the path of
  its parent and the inner entry that path followed by the one segment \<open>n\<close>.
\<close>

theorem renamed_exclusion:
  "(eclass e = EntryRenamed \<and> exclude_from_path e \<longrightarrow>
      path e = (case parent e of None \<Rightarrow> [] | Some p \<Rightarrow> path p)) \<and>
   (EntryRenamed_init par c True = Inr r \<longrightarrow>
      excluded r \<and> path r = (case par of None \<Rightarrow> [] | Some p \<Rightarrow> path p)) \<and>
   (EntryRenamed_init par c excl = Inr r \<and> subcon_of c = Inr s \<and>
    construct_name c = construct_name s \<longrightarrow>
      excluded r \<and> path r = (case par of None \<Rightarrow> [] | Some p \<Rightarrow> path p)) \<and>
   (n \<noteq> [] \<and> construct_name t \<noteq> Some n \<and> (n' = [] \<or> n' = n) \<and>
    create_entry_from_construct par (cs_Renamed_new (cs_Renamed_new t n) n') = Inr (Some r) \<and>
    subentry r = Inr (Some i) \<longrightarrow>
      excluded r \<and> \<not> excluded i \<and>
      path r = (case par of None \<Rightarrow> [] | Some p \<Rightarrow> path p) \<and>
      path i = (case par of None \<Rightarrow> [] | Some p \<Rightarrow> path p) @ [n])"
proof (intro conjI impI)
  assume "eclass e = EntryRenamed \<and> exclude_from_path e"
  then show "path e = (case parent e of None \<Rightarrow> [] | Some p \<Rightarrow> path p)"
    by (simp add: path_excluded)
next
  assume a: "EntryRenamed_init par c True = Inr r"
  then have r: "r = Entry EntryRenamed par c True"
    by (auto simp: EntryRenamed_init_def split: sum.splits)
  show "excluded r" by (simp add: r excluded_def)
  show "path r = (case par of None \<Rightarrow> [] | Some p \<Rightarrow> path p)" by (simp add: r)
next
  assume a: "EntryRenamed_init par c excl = Inr r \<and> subcon_of c = Inr s \<and>
    construct_name c = construct_name s"
  then have r: "r = Entry EntryRenamed par c True"
    by (auto simp: EntryRenamed_init_def split: sum.splits)
  show "excluded r" by (simp add: r excluded_def)
  show "path r = (case par of None \<Rightarrow> [] | Some p \<Rightarrow> path p)" by (simp add: r)
next
  assume a: "n \<noteq> [] \<and> construct_name t \<noteq> Some n \<and> (n' = [] \<or> n' = n) \<and>
    create_entry_from_construct par (cs_Renamed_new (cs_Renamed_new t n) n') = Inr (Some r) \<and>
    subentry r = Inr (Some i)"
  then have n: "n \<noteq> []" and t: "construct_name t \<noteq> Some n" and n': "n' = [] \<or> n' = n"
    and cr: "create_entry_from_construct par (cs_Renamed_new (cs_Renamed_new t n) n') = Inr (Some r)"
    and si: "subentry r = Inr (Some i)"
    by simp_all
  from n n' have nm: "construct_name (cs_Renamed_new (cs_Renamed_new t n) n') = Some n"
    by (auto simp: cs_Renamed_new_def)
  from n have nm_in: "construct_name (cs_Renamed_new t n) = Some n"
    by (simp add: cs_Renamed_new_def)
  have sub: "subcon_of (cs_Renamed_new (cs_Renamed_new t n) n') = Inr (cs_Renamed_new t n)"
    by (simp add: cs_Renamed_new_def)
  have sub_in: "subcon_of (cs_Renamed_new t n) = Inr t"
    by (simp add: cs_Renamed_new_def)
  from cr have r: "r = Entry EntryRenamed par (cs_Renamed_new (cs_Renamed_new t n) n') True"
    by (simp add: create_entry_Renamed EntryRenamed_init_def sub nm nm_in)
  from si have i: "i = Entry EntryRenamed (Some r) (cs_Renamed_new t n) False"
    using t by (auto simp: subentry_def r sub create_entry_Renamed EntryRenamed_init_def sub_in nm_in)
  show "excluded r" by (simp add: r excluded_def)
  show "\<not> excluded i" by (simp add: i excluded_def)
  show pr: "path r = (case par of None \<Rightarrow> [] | Some p \<Rightarrow> path p)" by (simp add: r)
  have "path i = path r @ [name i]"
    using n by (intro path_named_child) (simp_all add: i name_def nm_in)
  then show "path i = (case par of None \<Rightarrow> [] | Some p \<Rightarrow> path p) @ [n]"
    by (simp add: pr) (simp add: i name_def nm_in)
qed

theorem renamed_exclusion_witness:
  "create_entry_from_construct (Some example_root) example_nested =
     Inr (Some (Entry EntryRenamed (Some example_root) example_nested True)) \<and>
   subentry (Entry EntryRenamed (Some example_root) example_nested True) =
     Inr (Some (Entry EntryRenamed (Some (Entry EntryRenamed (Some example_root) example_nested True))
                  (cs_Renamed_new example_leaf ''a'') False)) \<and>
   path (Entry EntryRenamed (Some example_root) example_nested True) = [] \<and>
   path (Entry EntryRenamed (Some (Entry EntryRenamed (Some example_root) example_nested True))
           (cs_Renamed_new example_leaf ''a'') False) = [''a'']"
  using renamed_exclusion [of "Entry EntryRenamed (Some example_root) example_nested True"
          "Some example_root" example_nested
          "Entry EntryRenamed (Some example_root) example_nested True" False
          "cs_Renamed_new example_leaf ''a''" "''a''" example_leaf "[]"
          "Entry EntryRenamed (Some (Entry EntryRenamed (Some example_root) example_nested True))
             (cs_Renamed_new example_leaf ''a'') False"]
  by (simp add: example_nested_def create_entry_Renamed EntryRenamed_init_def subentry_def
        cs_Renamed_new_def example_leaf_def example_root_def name_def
        create_entry_from_construct_def create_entry_with_def entry_mapping_construct_def
        entry_init_def)

subsection \<open>The factory's lookup order\<close>

lemma registry_distinct: "distinct (map fst entry_mapping_construct)"
  by (simp add: entry_mapping_construct_def)

lemma find_first:
  "i < length xs \<Longrightarrow> P (xs ! i) \<Longrightarrow> \<forall>j<i. \<not> P (xs ! j) \<Longrightarrow> find P xs = Some (xs ! i)"
  by (auto simp: find_Some_iff)

lemma find_none: "\<forall>x\<in>set xs. \<not> P x \<Longrightarrow> find P xs = None"
  by (simp add: find_None_iff)

lemma map_of_nth:
  "distinct (map fst xs) \<Longrightarrow> i < length xs \<Longrightarrow> map_of xs (fst (xs ! i)) = Some (snd (xs ! i))"
  by (simp add: map_of_eq_Some_iff)

text \<open>
  C5: (1) when the exact runtime type of the node is registered, the entry is built by the
  class registered for it; (2) otherwise, when some registered type is a supertype of the
  node's type, the entry is built by the class registered for the first such type in
  insertion order; (3) otherwise, when the node is a \<^verbatim>\<open>cs.Construct\<close>, the entry is a plain
  \<^verbatim>\<open>EntryConstruct\<close>; (4) otherwise construction fails: the factory raises its error for
  an unsupported node, a \<^verbatim>\<open>ValueError\<close>.
\<close>

theorem factory_lookup_order:
  "(map_of entry_mapping_construct (ctype c) = Some cls \<longrightarrow>
      create_entry_from_construct par c = map_sum id Some (entry_init cls par c)) \<and>
   (map_of entry_mapping_construct (ctype c) = None \<and>
    i < length entry_mapping_construct \<and>
    isinstance c (fst (entry_mapping_construct ! i)) \<and>
    (\<forall>j<i. \<not> isinstance c (fst (entry_mapping_construct ! j))) \<longrightarrow>
      create_entry_from_construct par c =
        map_sum id Some (entry_init (snd (entry_mapping_construct ! i)) par c)) \<and>
   (map_of entry_mapping_construct (ctype c) = None \<and>
    (\<forall>kv\<in>set entry_mapping_construct. \<not> isinstance c (fst kv)) \<and>
    isinstance c cs_Construct \<longrightarrow>
      create_entry_from_construct par c = map_sum id Some (entry_init EntryConstruct par c)) \<and>
   (map_of entry_mapping_construct (ctype c) = None \<and>
    (\<forall>kv\<in>set entry_mapping_construct. \<not> isinstance c (fst kv)) \<and>
    \<not> isinstance c cs_Construct \<longrightarrow>
      create_entry_from_construct par c = Inl ValueError)"
proof (intro conjI impI)
  assume "map_of entry_mapping_construct (ctype c) = Some cls"
  then show "create_entry_from_construct par c = map_sum id Some (entry_init cls par c)"
    by (simp add: create_entry_from_construct_def create_entry_with_def)
next
  assume a: "map_of entry_mapping_construct (ctype c) = None \<and>
    i < length entry_mapping_construct \<and>
    isinstance c (fst (entry_mapping_construct ! i)) \<and>
    (\<forall>j<i. \<not> isinstance c (fst (entry_mapping_construct ! j)))"
  then have f: "find (\<lambda>kv. isinstance c (fst kv)) entry_mapping_construct =
                  Some (entry_mapping_construct ! i)"
    by (intro find_first) simp_all
  from a have m: "map_of entry_mapping_construct (fst (entry_mapping_construct ! i)) =
                    Some (snd (entry_mapping_construct ! i))"
    by (intro map_of_nth registry_distinct) simp
  from a f m show "create_entry_from_construct par c =
        map_sum id Some (entry_init (snd (entry_mapping_construct ! i)) par c)"
    by (simp add: create_entry_from_construct_def create_entry_with_def)
next
  assume a: "map_of entry_mapping_construct (ctype c) = None \<and>
    (\<forall>kv\<in>set entry_mapping_construct. \<not> isinstance c (fst kv)) \<and>
    isinstance c cs_Construct"
  then have "find (\<lambda>kv. isinstance c (fst kv)) entry_mapping_construct = None"
    by (intro find_none) simp
  with a show "create_entry_from_construct par c =
      map_sum id Some (entry_init EntryConstruct par c)"
    by (simp add: create_entry_from_construct_def create_entry_with_def)
next
  assume a: "map_of entry_mapping_construct (ctype c) = None \<and>
    (\<forall>kv\<in>set entry_mapping_construct. \<not> isinstance c (fst kv)) \<and>
    \<not> isinstance c cs_Construct"
  then have "find (\<lambda>kv. isinstance c (fst kv)) entry_mapping_construct = None"
    by (intro find_none) simp
  with a show "create_entry_from_construct par c = Inl ValueError"
    by (simp add: create_entry_from_construct_def create_entry_with_def)
qed

theorem factory_lookup_order_witness:
  "create_entry_from_construct None example_leaf =
     Inr (Some (Entry EntryFormatField None example_leaf False)) \<and>
   create_entry_from_construct None example_substruct =
     Inr (Some (Entry EntryStruct None example_substruct False)) \<and>
   create_entry_from_construct None example_padded =
     Inr (Some (Entry EntryConstruct None example_padded False)) \<and>
   create_entry_from_construct None example_int = Inl ValueError"
proof -
  have before: "\<forall>j<6. \<not> isinstance example_substruct (fst (entry_mapping_construct ! j))"
  proof (intro allI impI)
    fix j :: nat
    assume "j < 6"
    then consider "j = 0" | "j = 1" | "j = 2" | "j = 3" | "j = 4" | "j = 5" by linarith
    then show "\<not> isinstance example_substruct (fst (entry_mapping_construct ! j))"
      by cases
         (simp_all add: entry_mapping_construct_def isinstance_def example_substruct_def)
  qed
  show ?thesis
    using factory_lookup_order [of example_leaf EntryFormatField None 0]
          factory_lookup_order [of example_substruct EntryStruct None 6]
          factory_lookup_order [of example_padded EntryConstruct None 0]
          factory_lookup_order [of example_int EntryConstruct None 0]
          before
    by (simp add: entry_mapping_construct_def isinstance_def example_leaf_def
          example_substruct_def example_padded_def example_int_def entry_init_def
          is_subconstruct_class_def)
qed

subsection \<open>Conditional and switch entries\<close>

lemma path_example_ite_entry: "path example_ite_entry = [''c'']"
  by (simp add: example_ite_entry_def example_cond_root_def example_ite_def name_def
        cs_Renamed_new_def)

lemma path_example_switch_entry: "path example_switch_entry = [''s'']"
  by (simp add: example_switch_entry_def example_cond_root_def example_switch_def name_def
        cs_Renamed_new_def)

text \<open>
  C2, as the code has it.  When the live value of a conditional or switch entry is
  \<^verbatim>\<open>None\<close>, there is no active branch: \<^verbatim>\<open>typ_str\<close> is the static label, \<^verbatim>\<open>obj_str\<close> is
  empty and \<^verbatim>\<open>subentries\<close> is the static list of branches.  Nothing else is absorbed: an
  exception raised by the read of the live value, the \<^verbatim>\<open>AttributeError\<close> of a live value
  that is not \<^verbatim>\<open>None\<close> and carries no metadata, and an exception raised by the predicate
  or key function each leave \<^verbatim>\<open>_get_subentry\<close>, \<^verbatim>\<open>typ_str\<close>, \<^verbatim>\<open>obj_str\<close> and
  \<^verbatim>\<open>subentries\<close>.
\<close>

theorem conditional_active_branch:
  "(eclass e = EntryIfThenElse \<and> obj root e = Inr v \<and> is_None v \<longrightarrow>
      EntryIfThenElse_get_subentry root e = Inr None \<and>
      EntryIfThenElse_typ_str typ_str_of root e = Inr ''IfThenElse'' \<and>
      EntryIfThenElse_obj_str obj_str_of root e = Inr [] \<and>
      subentries root e = map_sum id Some (EntryIfThenElse_subentries_attr e)) \<and>
   (eclass e = EntrySwitch \<and> obj root e = Inr v \<and> is_None v \<longrightarrow>
      EntrySwitch_get_subentry root e = Inr None \<and>
      EntrySwitch_typ_str typ_str_of root e = Inr ''Switch'' \<and>
      EntrySwitch_obj_str obj_str_of root e = Inr [] \<and>
      subentries root e = map_sum id Some (EntrySwitch_subentries_attr e)) \<and>
   (eclass e = EntryIfThenElse \<and>
    (obj root e = Inl err \<or>
     obj root e = Inr v \<and> \<not> is_None v \<and> condfunc_of (construct e) = Inr f \<and>
       get_gui_metadata v = None \<and> err = AttributeError \<or>
     obj root e = Inr v \<and> \<not> is_None v \<and> condfunc_of (construct e) = Inr f \<and>
       get_gui_metadata v = Some md \<and> evaluate f (gui_context md) = Inl err) \<longrightarrow>
      EntryIfThenElse_get_subentry root e = Inl err \<and>
      EntryIfThenElse_typ_str typ_str_of root e = Inl err \<and>
      EntryIfThenElse_obj_str obj_str_of root e = Inl err \<and>
      subentries root e = Inl err) \<and>
   (eclass e = EntrySwitch \<and>
    (obj root e = Inl err \<or>
     obj root e = Inr v \<and> \<not> is_None v \<and> keyfunc_of (construct e) = Inr g \<and>
       get_gui_metadata v = None \<and> err = AttributeError \<or>
     obj root e = Inr v \<and> \<not> is_None v \<and> keyfunc_of (construct e) = Inr g \<and>
       get_gui_metadata v = Some md \<and> evaluate g (gui_context md) = Inl err) \<longrightarrow>
      EntrySwitch_get_subentry root e = Inl err \<and>
      EntrySwitch_typ_str typ_str_of root e = Inl err \<and>
      EntrySwitch_obj_str obj_str_of root e = Inl err \<and>
      subentries root e = Inl err)"
proof (intro conjI impI)
  assume a: "eclass e = EntryIfThenElse \<and> obj root e = Inr v \<and> is_None v"
  then show g: "EntryIfThenElse_get_subentry root e = Inr None"
    by (simp add: EntryIfThenElse_get_subentry_def)
  then show "EntryIfThenElse_typ_str typ_str_of root e = Inr ''IfThenElse''"
    and "EntryIfThenElse_obj_str obj_str_of root e = Inr []"
    by (simp_all add: EntryIfThenElse_typ_str_def EntryIfThenElse_obj_str_def)
  from a g show "subentries root e = map_sum id Some (EntryIfThenElse_subentries_attr e)"
    by (simp add: subentries_IfThenElse)
next
  assume a: "eclass e = EntrySwitch \<and> obj root e = Inr v \<and> is_None v"
  then show g: "EntrySwitch_get_subentry root e = Inr None"
    by (simp add: EntrySwitch_get_subentry_def)
  then show "EntrySwitch_typ_str typ_str_of root e = Inr ''Switch''"
    and "EntrySwitch_obj_str obj_str_of root e = Inr []"
    by (simp_all add: EntrySwitch_typ_str_def EntrySwitch_obj_str_def)
  from a g show "subentries root e = map_sum id Some (EntrySwitch_subentries_attr e)"
    by (simp add: subentries_Switch)
next
  assume a: "eclass e = EntryIfThenElse \<and>
    (obj root e = Inl err \<or>
     obj root e = Inr v \<and> \<not> is_None v \<and> condfunc_of (construct e) = Inr f \<and>
       get_gui_metadata v = None \<and> err = AttributeError \<or>
     obj root e = Inr v \<and> \<not> is_None v \<and> condfunc_of (construct e) = Inr f \<and>
       get_gui_metadata v = Some md \<and> evaluate f (gui_context md) = Inl err)"
  then show g: "EntryIfThenElse_get_subentry root e = Inl err"
    by (auto simp: EntryIfThenElse_get_subentry_def)
  then show "EntryIfThenElse_typ_str typ_str_of root e = Inl err"
    and "EntryIfThenElse_obj_str obj_str_of root e = Inl err"
    by (simp_all add: EntryIfThenElse_typ_str_def EntryIfThenElse_obj_str_def)
  from a g show "subentries root e = Inl err"
    by (simp add: subentries_IfThenElse)
next
  assume a: "eclass e = EntrySwitch \<and>
    (obj root e = Inl err \<or>
     obj root e = Inr v \<and> \<not> is_None v \<and> keyfunc_of (construct e) = Inr g \<and>
       get_gui_metadata v = None \<and> err = AttributeError \<or>
     obj root e = Inr v \<and> \<not> is_None v \<and> keyfunc_of (construct e) = Inr g \<and>
       get_gui_metadata v = Some md \<and> evaluate g (gui_context md) = Inl err)"
  then show g: "EntrySwitch_get_subentry root e = Inl err"
    by (auto simp: EntrySwitch_get_subentry_def)
  then show "EntrySwitch_typ_str typ_str_of root e = Inl err"
    and "EntrySwitch_obj_str obj_str_of root e = Inl err"
    by (simp_all add: EntrySwitch_typ_str_def EntrySwitch_obj_str_def)
  from a g show "subentries root e = Inl err"
    by (simp add: subentries_Switch)
qed

theorem conditional_active_branch_witness:
  "EntryIfThenElse_typ_str no_label no_obj example_ite_entry = Inr ''IfThenElse'' \<and>
   EntrySwitch_typ_str no_label no_obj example_switch_entry = Inr ''Switch'' \<and>
   subentries no_obj example_ite_entry =
     map_sum id Some (EntryIfThenElse_subentries_attr example_ite_entry) \<and>
   subentries (PyVal None (PyDict [])) example_ite_entry = Inl KeyError \<and>
   subentries (example_cond_obj None) example_switch_entry = Inl AttributeError \<and>
   subentries (example_cond_obj (Some \<lparr>gui_context = ()\<rparr>)) example_ite_entry = Inl KeyError"
  using conditional_active_branch [of example_ite_entry no_obj no_obj no_label no_label KeyError
          "Constant True" "\<lparr>gui_context = ()\<rparr>" "Constant (KeyInt 0)"]
        conditional_active_branch [of example_switch_entry no_obj no_obj no_label no_label KeyError
          "Constant True" "\<lparr>gui_context = ()\<rparr>" "Constant (KeyInt 0)"]
        conditional_active_branch [of example_ite_entry "PyVal None (PyDict [])" no_obj no_label
          no_label KeyError "Constant True" "\<lparr>gui_context = ()\<rparr>" "Constant (KeyInt 0)"]
        conditional_active_branch [of example_switch_entry "example_cond_obj None"
          "PyVal None (PyInt 5)" no_label no_label AttributeError
          "Constant True" "\<lparr>gui_context = ()\<rparr>" "Callable ''this.kind'' (\<lambda>ctx. Inl KeyError)"]
        conditional_active_branch [of example_ite_entry
          "example_cond_obj (Some \<lparr>gui_context = ()\<rparr>)"
          "PyVal (Some \<lparr>gui_context = ()\<rparr>) (PyInt 5)" no_label no_label KeyError
          "Callable ''this.flag'' (\<lambda>ctx. Inl KeyError)" "\<lparr>gui_context = ()\<rparr>"
          "Constant (KeyInt 0)"]
  by (simp add: obj_def path_example_ite_entry path_example_switch_entry no_obj_def
        example_cond_obj_def dict_getitem_def is_None_def get_gui_metadata_def)
     (simp add: example_ite_entry_def example_switch_entry_def example_ite_def
        example_switch_def get_gui_metadata_def)

text \<open>
  The claim as written has no access raise.  For the conditional field \<open>c\<close> and the switch
  field \<open>s\<close> of a struct, over a root object that lacks the keys: the \<^verbatim>\<open>KeyError\<close> of the
  read leaves \<^verbatim>\<open>_get_subentry\<close>, \<^verbatim>\<open>typ_str\<close>, \<^verbatim>\<open>obj_str\<close> and \<^verbatim>\<open>subentries\<close>.
\<close>

theorem conditional_raises_counterexample:
  "EntryIfThenElse_get_subentry (PyVal None (PyDict [])) example_ite_entry = Inl KeyError \<and>
   EntryIfThenElse_typ_str no_label (PyVal None (PyDict [])) example_ite_entry = Inl KeyError \<and>
   EntryIfThenElse_obj_str no_label (PyVal None (PyDict [])) example_ite_entry = Inl KeyError \<and>
   subentries (PyVal None (PyDict [])) example_ite_entry = Inl KeyError \<and>
   EntrySwitch_get_subentry (PyVal None (PyDict [])) example_switch_entry = Inl KeyError \<and>
   EntrySwitch_typ_str no_label (PyVal None (PyDict [])) example_switch_entry = Inl KeyError \<and>
   EntrySwitch_obj_str no_label (PyVal None (PyDict [])) example_switch_entry = Inl KeyError \<and>
   subentries (PyVal None (PyDict [])) example_switch_entry = Inl KeyError"
proof -
  have i: "EntryIfThenElse_get_subentry (PyVal None (PyDict [])) example_ite_entry = Inl KeyError"
    by (simp add: EntryIfThenElse_get_subentry_def obj_def path_example_ite_entry dict_getitem_def)
  have s: "EntrySwitch_get_subentry (PyVal None (PyDict [])) example_switch_entry = Inl KeyError"
    by (simp add: EntrySwitch_get_subentry_def obj_def path_example_switch_entry dict_getitem_def)
  have ci: "eclass example_ite_entry = EntryIfThenElse" by (simp add: example_ite_entry_def)
  have cs: "eclass example_switch_entry = EntrySwitch" by (simp add: example_switch_entry_def)
  show ?thesis
    by (simp add: i s EntryIfThenElse_typ_str_def EntryIfThenElse_obj_str_def
          EntrySwitch_typ_str_def EntrySwitch_obj_str_def
          subentries_IfThenElse[OF ci] subentries_Switch[OF cs])
qed

subsection \<open>Array children\<close>

lemma str_nat_nonempty: "str_nat i \<noteq> []"
  by (subst str_nat.simps) simp

lemma name_Renamed: "nm \<noteq> [] \<Longrightarrow> name (Entry cls par (cs_Renamed_new s nm) x) = nm"
  by (simp add: name_def cs_Renamed_new_def)

lemma subcon_of_Renamed: "subcon_of (cs_Renamed_new s nm) = Inr s"
  by (simp add: cs_Renamed_new_def)

lemma construct_name_Renamed: "nm \<noteq> [] \<Longrightarrow> construct_name (cs_Renamed_new s nm) = Some nm"
  by (simp add: cs_Renamed_new_def)

lemma insert_entry_index:
  "subcon_of (construct e) = Inr s \<Longrightarrow>
     insert_entry e cache i =
       Inr (cache @ [Some (Entry EntryRenamed (Some e) (cs_Renamed_new s (str_nat i))
                             (construct_name s = Some (str_nat i)))])"
  by (simp add: insert_entry_def create_entry_Renamed EntryRenamed_init_def subcon_of_Renamed
        construct_name_Renamed str_nat_nonempty)

lemma insert_entries_index:
  "subcon_of (construct e) = Inr s \<Longrightarrow>
     insert_entries e idxs cache =
       Inr (cache @ map (\<lambda>i. Some (Entry EntryRenamed (Some e) (cs_Renamed_new s (str_nat i))
                                      (construct_name s = Some (str_nat i)))) idxs)"
  by (induction idxs arbitrary: cache) (simp_all add: insert_entry_index)

lemma sync_subentries_index:
  "subcon_of (construct e) = Inr s \<Longrightarrow>
     sync_subentries e n cache =
       Inr (if int (length cache) = n then cache
            else map (\<lambda>i. Some (Entry EntryRenamed (Some e) (cs_Renamed_new s (str_nat i))
                                   (construct_name s = Some (str_nat i)))) [0..<nat n])"
  by (simp add: sync_subentries_def insert_entries_index)

lemma path_example_xs_entry: "path example_xs_entry = [''xs'']"
  by (simp add: example_xs_entry_def example_root_def example_array_def name_def
        cs_Renamed_new_def)

lemma str_nat_0: "str_nat 0 = ''0''"
  by (simp add: str_nat.simps digit_char_def)

lemma str_nat_1: "str_nat (Suc 0) = ''1''"
  by (simp add: str_nat.simps[of "Suc 0"] digit_char_def)




subsection \<open>The columns of the model\<close>

lemma fold_raised:
  "fold (\<lambda>sub acc. case acc of Inl err \<Rightarrow> Inl err | Inr flat \<Rightarrow> h sub flat) subs (Inl err) = Inl err"
  by (induction subs) simp_all

lemma fold_concat_results:
  assumes "\<And>s acc. Some s \<in> set subs \<Longrightarrow>
             F s acc = (case G s of Inl err \<Rightarrow> Inl err | Inr ls \<Rightarrow> Inr (acc @ ls))"
  shows "fold (\<lambda>sub acc.
                 case acc of
                   Inl err \<Rightarrow> Inl err
                 | Inr flat \<Rightarrow> (case sub of None \<Rightarrow> Inl AttributeError | Some s \<Rightarrow> F s flat))
              subs (Inr acc) =
         (case concat_results
                 (map (\<lambda>sub. case sub of None \<Rightarrow> Inl AttributeError | Some s \<Rightarrow> G s) subs) of
            Inl err \<Rightarrow> Inl err
          | Inr ls \<Rightarrow> Inr (acc @ ls))"
  using assms
proof (induction subs arbitrary: acc)
  case Nil
  then show ?case by simp
next
  case (Cons sub subs)
  show ?case
  proof (cases sub)
    case None
    then show ?thesis by (simp add: fold_raised)
  next
    case (Some s)
    have step: "F s acc = (case G s of Inl err \<Rightarrow> Inl err | Inr ls \<Rightarrow> Inr (acc @ ls))"
      using Cons.prems[of s acc] Some by simp
    show ?thesis
    proof (cases "G s")
      case (Inl err)
      with Some step show ?thesis by (simp add: fold_raised)
    next
      case (Inr ls)
      have "fold (\<lambda>sub acc.
                 case acc of
                   Inl err \<Rightarrow> Inl err
                 | Inr flat \<Rightarrow> (case sub of None \<Rightarrow> Inl AttributeError | Some s \<Rightarrow> F s flat))
              subs (Inr (acc @ ls)) =
         (case concat_results
                 (map (\<lambda>sub. case sub of None \<Rightarrow> Inl AttributeError | Some s \<Rightarrow> G s) subs) of
            Inl err \<Rightarrow> Inl err
          | Inr ls' \<Rightarrow> Inr ((acc @ ls) @ ls'))"
        by (rule Cons.IH) (simp add: Cons.prems)
      with Some step Inr show ?thesis by (simp split: sum.splits)
    qed
  qed
qed

lemma flat_list_leaves:
  "create_flat_subentry_list root e acc =
     (case flat_leaves root e of Inl err \<Rightarrow> Inl err | Inr ls \<Rightarrow> Inr (acc @ ls))"
proof (induction root e arbitrary: acc rule: flat_leaves.induct)
  case (1 root e)
  show ?case
  proof (cases "subentries root e")
    case (Inl err)
    then show ?thesis
      by (simp add: create_flat_subentry_list.simps[of root e] flat_leaves.simps[of root e])
  next
    case (Inr r)
    show ?thesis
    proof (cases r)
      case None
      with Inr show ?thesis
        by (simp add: create_flat_subentry_list.simps[of root e] flat_leaves.simps[of root e])
    next
      case (Some subs)
      have "fold (\<lambda>sub acc.
                 case acc of
                   Inl err \<Rightarrow> Inl err
                 | Inr flat \<Rightarrow> (case sub of None \<Rightarrow> Inl AttributeError
                                | Some s \<Rightarrow> create_flat_subentry_list root s flat))
              subs (Inr acc) =
         (case concat_results
                 (map (\<lambda>sub. case sub of None \<Rightarrow> Inl AttributeError
                                | Some s \<Rightarrow> flat_leaves root s) subs) of
            Inl err \<Rightarrow> Inl err
          | Inr ls \<Rightarrow> Inr (acc @ ls))"
        by (rule fold_concat_results) (rule "1.IH"[OF Inr Some _ refl])
      with Inr Some show ?thesis
        by (simp add: create_flat_subentry_list.simps[of root e] flat_leaves.simps[of root e])
    qed
  qed
qed

lemma concat_results_member:
  "concat_results rs = Inr ls \<Longrightarrow> l \<in> set ls \<Longrightarrow> \<exists>xs. Inr xs \<in> set rs \<and> l \<in> set xs"
proof (induction rs arbitrary: ls rule: concat_results.induct)
  case 1
  then show ?case by simp
next
  case (2 err rs)
  then show ?case by simp
next
  case (3 xs rs)
  then show ?case by (fastforce split: sum.splits)
qed

lemma flat_leaves_are_leaves:
  "flat_leaves root e = Inr ls \<Longrightarrow> l \<in> set ls \<Longrightarrow> subentries root l = Inr None"
proof (induction root e arbitrary: ls rule: flat_leaves.induct)
  case (1 root e)
  show ?case
  proof (cases "subentries root e")
    case (Inl err)
    with "1.prems" show ?thesis by (simp add: flat_leaves.simps[of root e])
  next
    case (Inr r)
    show ?thesis
    proof (cases r)
      case None
      with Inr "1.prems" show ?thesis by (auto simp: flat_leaves.simps[of root e])
    next
      case (Some subs)
      with Inr "1.prems"(1) have "concat_results
                 (map (\<lambda>sub. case sub of None \<Rightarrow> Inl AttributeError
                                | Some s \<Rightarrow> flat_leaves root s) subs) = Inr ls"
        by (simp add: flat_leaves.simps[of root e])
      from concat_results_member[OF this "1.prems"(2)] obtain xs where
        mem: "Inr xs \<in> (\<lambda>sub. case sub of None \<Rightarrow> Inl AttributeError
                                | Some s \<Rightarrow> flat_leaves root s) ` set subs"
        and l: "l \<in> set xs"
        by auto
      from mem obtain sub where sub: "sub \<in> set subs"
        and xs': "Inr xs = (case sub of None \<Rightarrow> Inl AttributeError | Some s \<Rightarrow> flat_leaves root s)"
        by (rule imageE)
      from xs' have xs: "(case sub of None \<Rightarrow> Inl AttributeError | Some s \<Rightarrow> flat_leaves root s) = Inr xs"
        by (rule sym)
      from xs obtain s where s: "sub = Some s" "flat_leaves root s = Inr xs"
        by (cases sub) simp_all
      from "1.IH"[OF Inr Some sub s(1) s(2) l] show ?thesis .
    qed
  qed
qed


lemma flat_list_from_empty:
  "create_flat_subentry_list root e [] = flat_leaves root e"
  by (cases "flat_leaves root e") (simp_all add: flat_list_leaves)

lemma subentries_index_child:
  "subentries root (Entry EntryRenamed par (cs_Renamed_new example_leaf nm) x) = Inr None"
proof -
  let ?e = "Entry EntryRenamed par (cs_Renamed_new example_leaf nm) x"
  have s: "subentry ?e = Inr (Some (Entry EntryFormatField (Some ?e) example_leaf False))"
    by (simp add: subentry_def subcon_of_Renamed)
       (simp add: example_leaf_def create_entry_from_construct_def create_entry_with_def
          entry_mapping_construct_def entry_init_def is_subconstruct_class_def)
  have "subentries root (Entry EntryFormatField (Some ?e) example_leaf False) = Inr None"
    by (simp add: subentries_delegate is_subconstruct_class_def)
  moreover have "subentries root ?e =
        (if is_subconstruct_class (eclass ?e)
         then (case subentry ?e of
                 Inl err \<Rightarrow> Inl err
               | Inr None \<Rightarrow> Inl AttributeError
               | Inr (Some s) \<Rightarrow> subentries root s)
         else Inr None)"
    by (rule subentries_delegate) simp_all
  ultimately show ?thesis
    by (simp add: s is_subconstruct_class_def)
qed

lemma flat_leaves_index_child:
  "flat_leaves root (Entry EntryRenamed par (cs_Renamed_new example_leaf nm) x) =
     Inr [Entry EntryRenamed par (cs_Renamed_new example_leaf nm) x]"
  by (simp add: flat_leaves.simps[of root "Entry EntryRenamed par (cs_Renamed_new example_leaf nm) x"]
        subentries_index_child)

lemma subentries_example_xs_entry:
  "subentries example_obj example_xs_entry =
     Inr (Some
       [Some (Entry EntryRenamed (Some example_xs_entry) (cs_Renamed_new example_leaf ''0'') False),
        Some (Entry EntryRenamed (Some example_xs_entry) (cs_Renamed_new example_leaf ''1'') False)])"
proof -
  have c: "eclass example_xs_entry = EntryArray"
    "subcon_of (construct example_xs_entry) = Inr example_leaf"
    "construct_name example_leaf = None"
    by (simp_all add: example_xs_entry_def example_array_def example_leaf_def)
  have len: "EntryArray_array_len example_obj example_xs_entry = Inr 2"
    by (simp add: EntryArray_array_len_def obj_def path_example_xs_entry example_obj_def
          dict_getitem_def)
  have up: "[0..<2] = [0, Suc 0]"
    by (simp add: upt_rec)
  show ?thesis
    by (simp add: subentries_Array[OF c(1)] EntryArray_subentries_def len
          sync_subentries_index[OF c(2)] up str_nat_0 str_nat_1 c(3))
qed

lemma flat_leaves_example_xs_entry:
  "flat_leaves example_obj example_xs_entry =
     Inr [Entry EntryRenamed (Some example_xs_entry) (cs_Renamed_new example_leaf ''0'') False,
          Entry EntryRenamed (Some example_xs_entry) (cs_Renamed_new example_leaf ''1'') False]"
  by (simp add: flat_leaves.simps[of example_obj example_xs_entry] subentries_example_xs_entry
        flat_leaves_index_child)

text \<open>
  C6: \<^verbatim>\<open>get_value\<close> returns the name of the entry for column 0, its type label for column
  1 and the entry itself for column 2.  For a column greater than 2 it returns the empty
  string when the entry has no parent or its parent is not in the list-viewed set.
  Otherwise it flattens the subtree of the entry, and the list it builds is the list of the
  leaves of the subtree in depth-first order, no container among them; it returns the value
  label of the leaf at the index column minus 3, or the empty string when there is no leaf
  at that index.  An exception raised by the type label, by the flattening or by the value
  label is raised by \<^verbatim>\<open>get_value\<close>.
\<close>

theorem get_value_columns:
  "get_value typ_str_of obj_str_of m e 0 = Inr (CellStr (name e)) \<and>
   get_value typ_str_of obj_str_of m e 1 = map_sum id CellStr (typ_str_of (root_obj m) e) \<and>
   get_value typ_str_of obj_str_of m e 2 = Inr (CellEntry e) \<and>
   (2 < column \<and> (\<forall>p. parent e = Some p \<longrightarrow> p \<notin> set (list_viewed_entries m)) \<longrightarrow>
      get_value typ_str_of obj_str_of m e column = Inr (CellStr [])) \<and>
   (2 < column \<and> parent e = Some p \<and> p \<in> set (list_viewed_entries m) \<longrightarrow>
      get_value typ_str_of obj_str_of m e column =
        (case flat_leaves (root_obj m) e of
           Inl err \<Rightarrow> Inl err
         | Inr leaves \<Rightarrow>
             if nat (column - 3) < length leaves
             then map_sum id CellStr (obj_str_of (root_obj m) (leaves ! nat (column - 3)))
             else Inr (CellStr []))) \<and>
   create_flat_subentry_list (root_obj m) e [] = flat_leaves (root_obj m) e \<and>
   (flat_leaves (root_obj m) e = Inr leaves \<and> l \<in> set leaves \<longrightarrow>
      subentries (root_obj m) l = Inr None)"
proof (intro conjI impI)
  show "get_value typ_str_of obj_str_of m e 0 = Inr (CellStr (name e))"
    by (simp add: get_value_def)
  show "get_value typ_str_of obj_str_of m e 1 = map_sum id CellStr (typ_str_of (root_obj m) e)"
    by (simp add: get_value_def)
  show "get_value typ_str_of obj_str_of m e 2 = Inr (CellEntry e)"
    by (simp add: get_value_def)
  show "create_flat_subentry_list (root_obj m) e [] = flat_leaves (root_obj m) e"
    by (rule flat_list_from_empty)
next
  assume "2 < column \<and> (\<forall>p. parent e = Some p \<longrightarrow> p \<notin> set (list_viewed_entries m))"
  then show "get_value typ_str_of obj_str_of m e column = Inr (CellStr [])"
    by (cases "parent e") (simp_all add: get_value_def)
next
  assume a: "2 < column \<and> parent e = Some p \<and> p \<in> set (list_viewed_entries m)"
  show "get_value typ_str_of obj_str_of m e column =
        (case flat_leaves (root_obj m) e of
           Inl err \<Rightarrow> Inl err
         | Inr leaves \<Rightarrow>
             if nat (column - 3) < length leaves
             then map_sum id CellStr (obj_str_of (root_obj m) (leaves ! nat (column - 3)))
             else Inr (CellStr []))"
  proof (cases "flat_leaves (root_obj m) e")
    case (Inl err)
    with a show ?thesis by (simp add: get_value_def flat_list_from_empty)
  next
    case (Inr leaves)
    from a have "list_index (length leaves) (column - 3) =
        (if nat (column - 3) < length leaves then Inr (nat (column - 3)) else Inl IndexError)"
      by (auto simp: list_index_def Let_def)
    moreover from a have "(int (length leaves) > column - 3) = (nat (column - 3) < length leaves)"
      by auto
    ultimately show ?thesis
      using a Inr by (simp add: get_value_def flat_list_from_empty)
  qed
next
  assume "flat_leaves (root_obj m) e = Inr leaves \<and> l \<in> set leaves"
  then show "subentries (root_obj m) l = Inr None"
    by (blast intro: flat_leaves_are_leaves)
qed

theorem get_value_columns_witness:
  "get_value name_label name_label example_list_model example_xs_entry 3 = Inr (CellStr ''0'') \<and>
   get_value name_label name_label example_list_model example_xs_entry 4 = Inr (CellStr ''1'') \<and>
   get_value name_label name_label example_list_model example_xs_entry 5 = Inr (CellStr []) \<and>
   get_value name_label name_label example_list_model example_item 3 = Inr (CellStr ''1'') \<and>
   get_value name_label name_label example_list_model example_item 4 = Inr (CellStr []) \<and>
   get_value name_label name_label example_list_model example_field_a 3 = Inr (CellStr []) \<and>
   get_value name_label name_label example_list_model example_field_a 0 = Inr (CellStr ''a'')"
proof -
  have par: "parent example_xs_entry =
      Some (Entry EntryRenamed (Some example_root) (cs_Renamed_new example_array ''xs'') False)"
    "parent example_item = Some example_xs_entry"
    "parent example_field_a = Some example_root"
    "example_item =
       Entry EntryRenamed (Some example_xs_entry) (cs_Renamed_new example_leaf ''1'') False"
    by (simp_all add: example_xs_entry_def example_item_def example_field_a_def)
  have lv: "list_viewed_entries example_list_model =
      [Entry EntryRenamed (Some example_root) (cs_Renamed_new example_array ''xs'') False,
       example_xs_entry]"
    "root_obj example_list_model = example_obj"
    by (simp_all add: example_list_model_def)
  have notin: "example_root \<noteq>
      Entry EntryRenamed (Some example_root) (cs_Renamed_new example_array ''xs'') False"
    "example_root \<noteq> example_xs_entry"
    by (simp_all add: example_root_def example_xs_entry_def)
  have nm: "name (Entry EntryRenamed (Some example_xs_entry) (cs_Renamed_new example_leaf ''0'') False) = ''0''"
    "name (Entry EntryRenamed (Some example_xs_entry) (cs_Renamed_new example_leaf ''1'') False) = ''1''"
    "name example_field_a = ''a''" "name example_item = ''1''"
    by (simp_all add: name_Renamed example_field_a_def par(4))
  have fl: "flat_leaves example_obj example_item = Inr [example_item]"
    unfolding par(4) by (rule flat_leaves_index_child)
  show ?thesis
    using get_value_columns [where typ_str_of = name_label and obj_str_of = name_label
            and m = example_list_model and e = example_xs_entry and column = 3
            and p = "Entry EntryRenamed (Some example_root) (cs_Renamed_new example_array ''xs'') False"
            and leaves = "[]" and l = example_item]
          get_value_columns [where typ_str_of = name_label and obj_str_of = name_label
            and m = example_list_model and e = example_xs_entry and column = 4
            and p = "Entry EntryRenamed (Some example_root) (cs_Renamed_new example_array ''xs'') False"
            and leaves = "[]" and l = example_item]
          get_value_columns [where typ_str_of = name_label and obj_str_of = name_label
            and m = example_list_model and e = example_xs_entry and column = 5
            and p = "Entry EntryRenamed (Some example_root) (cs_Renamed_new example_array ''xs'') False"
            and leaves = "[]" and l = example_item]
          get_value_columns [where typ_str_of = name_label and obj_str_of = name_label
            and m = example_list_model and e = example_item and column = 3
            and p = example_xs_entry and leaves = "[]" and l = example_item]
          get_value_columns [where typ_str_of = name_label and obj_str_of = name_label
            and m = example_list_model and e = example_item and column = 4
            and p = example_xs_entry and leaves = "[]" and l = example_item]
          get_value_columns [where typ_str_of = name_label and obj_str_of = name_label
            and m = example_list_model and e = example_field_a and column = 3
            and p = example_root and leaves = "[]" and l = example_item]
    by (simp add: par(1-3) lv notin nm fl flat_leaves_example_xs_entry name_label_def par(4)[symmetric])
qed

end
